theory Spec2Isabelle
  imports Complex_Main "HOL-Library.Sublist"
begin

section \<open>Python values\<close>

text \<open>
  A Python \<open>str\<close> is a sequence of Unicode code points, so it is modelled as a list of
  natural numbers (the code points); \<open>ascii\<close> turns an ASCII literal into such a list.
  The values found in the business dictionaries of the scrapers are \<open>None\<close>, strings,
  numbers (\<open>int\<close> and \<open>float\<close>, modelled by the rational they denote, NaN excluded) and
  lists of strings. A dictionary is an association list with distinct keys in insertion
  order; the keys are the ASCII field names.
\<close>

type_synonym pystr = "nat list"

definition ascii :: "string \<Rightarrow> pystr" where
  "ascii s = map of_char s"

datatype pyval = PNone | PStr pystr | PNum rat | PList "pystr list"

datatype error = TypeError | AttributeError | KeyError | InterfaceError | Unmodelled

type_synonym dict = "(string \<times> pyval) list"

text \<open>\<open>bool(v)\<close>: the truth value Python gives to \<open>v\<close> in \<open>if v\<close> and \<open>not v\<close>.\<close>

fun truthy :: "pyval \<Rightarrow> bool" where
  "truthy PNone = False"
| "truthy (PStr s) = (s \<noteq> [])"
| "truthy (PNum r) = (r \<noteq> 0)"
| "truthy (PList xs) = (xs \<noteq> [])"

text \<open>\<open>d.get(k, default)\<close>; \<open>d.get(k)\<close> is \<open>py_get d k PNone\<close>.\<close>

definition py_get :: "dict \<Rightarrow> string \<Rightarrow> pyval \<Rightarrow> pyval" where
  "py_get d k dflt = (case map_of d k of None \<Rightarrow> dflt | Some v \<Rightarrow> v)"

text \<open>\<open>d[k] = v\<close>: an existing key keeps its position, a new key goes to the end.\<close>

fun py_set :: "dict \<Rightarrow> string \<Rightarrow> pyval \<Rightarrow> dict" where
  "py_set [] k v = [(k, v)]"
| "py_set ((k', v') # d) k v = (if k' = k then (k, v) # d else (k', v') # py_set d k v)"

section \<open>ProgressStore: the area\_progress table (database\_manager.py)\<close>

text \<open>
  A naive \<open>datetime\<close> is the number of microseconds since a fixed origin; a
  \<open>timedelta\<close> is a number of microseconds. Every column of \<open>area_progress\<close> but the
  four key columns may hold NULL (\<open>None\<close>). The table is the list of its rows in rowid
  order; \<open>area_seq\<close> is the AUTOINCREMENT counter.
\<close>

type_synonym datetime = int

definition timedelta_days :: "int \<Rightarrow> int" where
  "timedelta_days d = d * 86400 * 1000000"

definition timedelta_hours :: "int \<Rightarrow> int" where
  "timedelta_hours h = h * 3600 * 1000000"

definition timedelta_seconds :: "int \<Rightarrow> int" where
  "timedelta_seconds s = s * 1000000"

record area_row =
  ar_id :: nat
  ar_niche :: pystr
  ar_city :: pystr
  ar_area :: pystr
  ar_keyword :: pystr
  ar_last_scraped_at :: "datetime option"
  ar_businesses_found :: "int option"
  ar_completed :: "int option"
  ar_quality_score :: "int option"

record progress_db =
  area_progress :: "area_row list"
  area_seq :: nat

definition MIN_RESULTS_FOR_COMPLETION :: int where
  "MIN_RESULTS_FOR_COMPLETION = 50"

definition same_area :: "pystr \<Rightarrow> pystr \<Rightarrow> pystr \<Rightarrow> pystr \<Rightarrow> area_row \<Rightarrow> bool" where
  "same_area niche city area keyword r =
     (ar_niche r = niche \<and> ar_city r = city \<and> ar_area r = area \<and> ar_keyword r = keyword)"

text \<open>The SELECT of \<open>is_area_scraped\<close> followed by \<open>fetchone()\<close>.\<close>

definition select_area :: "progress_db \<Rightarrow> pystr \<Rightarrow> pystr \<Rightarrow> pystr \<Rightarrow> pystr \<Rightarrow> area_row option" where
  "select_area db niche city area keyword =
     find (same_area niche city area keyword) (area_progress db)"

definition calculate_scrape_quality :: "int \<Rightarrow> int" where
  "calculate_scrape_quality businesses_found =
     (if businesses_found \<ge> 100 then 100
      else if businesses_found \<ge> 50 then 80
      else if businesses_found \<ge> 20 then 50
      else if businesses_found \<ge> 10 then 30
      else 10)"

text \<open>
  \<open>INSERT OR REPLACE\<close>: the row that holds the same (niche, city, area, keyword) is
  deleted and the new row is inserted under a fresh id. \<open>ts\<close> is the value of
  \<open>CURRENT_TIMESTAMP\<close> when the statement runs.
\<close>

definition mark_area_scraped ::
  "progress_db \<Rightarrow> pystr \<Rightarrow> pystr \<Rightarrow> pystr \<Rightarrow> pystr \<Rightarrow> int \<Rightarrow> datetime \<Rightarrow> progress_db" where
  "mark_area_scraped db niche city area keyword businesses_found ts =
     (let quality_score = calculate_scrape_quality businesses_found;
          is_complete = (businesses_found \<ge> MIN_RESULTS_FOR_COMPLETION);
          row = \<lparr> ar_id = Suc (area_seq db), ar_niche = niche, ar_city = city,
                  ar_area = area, ar_keyword = keyword, ar_last_scraped_at = Some ts,
                  ar_businesses_found = Some businesses_found,
                  ar_completed = Some (if is_complete then 1 else 0),
                  ar_quality_score = Some quality_score \<rparr>
      in \<lparr> area_progress =
             filter (\<lambda>r. \<not> same_area niche city area keyword r) (area_progress db) @ [row],
           area_seq = Suc (area_seq db) \<rparr>)"

text \<open>
  \<open>now\<close> is the value of \<open>datetime.now()\<close>. \<open>not result['completed']\<close> holds for NULL
  and 0; comparing a NULL \<open>businesses_found\<close> with 50 and parsing a NULL timestamp raise
  TypeError.
\<close>

definition is_area_scraped ::
  "progress_db \<Rightarrow> pystr \<Rightarrow> pystr \<Rightarrow> pystr \<Rightarrow> pystr \<Rightarrow> datetime \<Rightarrow> error + bool" where
  "is_area_scraped db niche city area keyword now =
     (case select_area db niche city area keyword of
        None \<Rightarrow> Inr False
      | Some result \<Rightarrow>
          if ar_completed result = None \<or> ar_completed result = Some 0 then Inr False
          else (case ar_businesses_found result of
                  None \<Rightarrow> Inl TypeError
                | Some bf \<Rightarrow>
                    if bf < MIN_RESULTS_FOR_COMPLETION then Inr False
                    else (case ar_last_scraped_at result of
                            None \<Rightarrow> Inl TypeError
                          | Some last_scraped \<Rightarrow>
                              if now - last_scraped \<ge> timedelta_days 7 then Inr False
                              else Inr True)))"

section \<open>Python string operations\<close>

text \<open>\<open>str.isspace\<close> on one code point: the separators of \<open>split()\<close> and \<open>strip()\<close>.\<close>

definition is_space :: "nat \<Rightarrow> bool" where
  "is_space c =
     ((9 \<le> c \<and> c \<le> 13) \<or> (28 \<le> c \<and> c \<le> 32) \<or> c = 133 \<or> c = 160 \<or> c = 5760
      \<or> (8192 \<le> c \<and> c \<le> 8202) \<or> c = 8232 \<or> c = 8233 \<or> c = 8239 \<or> c = 8287
      \<or> c = 12288)"

text \<open>
  \<open>str.lower()\<close> on one code point, as CPython computes it on Basic Latin, Latin-1
  Supplement and Latin Extended-A (all of Czech); U+0130 becomes two code points. Code
  points from U+0180 on are left as they are by this model.
\<close>

definition lower_char :: "nat \<Rightarrow> nat list" where
  "lower_char c =
     (if 65 \<le> c \<and> c \<le> 90 then [c + 32]
      else if 192 \<le> c \<and> c \<le> 222 \<and> c \<noteq> 215 then [c + 32]
      else if c = 304 then [105, 775]
      else if ((256 \<le> c \<and> c \<le> 311) \<or> (330 \<le> c \<and> c \<le> 375)) \<and> even c then [c + 1]
      else if ((313 \<le> c \<and> c \<le> 328) \<or> (377 \<le> c \<and> c \<le> 382)) \<and> odd c then [c + 1]
      else if c = 376 then [255]
      else [c])"

definition py_lower :: "pystr \<Rightarrow> pystr" where
  "py_lower s = concat (map lower_char s)"

text \<open>
  \<open>s.replace(old, new)\<close>: the occurrences of \<open>old\<close> are found from the left and do not
  overlap; an empty \<open>old\<close> matches before every code point and at the end.
\<close>

function py_replace :: "pystr \<Rightarrow> pystr \<Rightarrow> pystr \<Rightarrow> pystr" where
  "py_replace old new s =
     (if old = [] then new @ concat (map (\<lambda>c. c # new) s)
      else if s = [] then []
      else if prefix old s then new @ py_replace old new (drop (length old) s)
      else hd s # py_replace old new (tl s))"
  by pat_completeness auto
termination
  by (relation "measure (\<lambda>(old, new, s). length s)") auto

declare py_replace.simps [simp del]

text \<open>\<open>s.split()\<close>: the maximal runs of code points that are not whitespace.\<close>

fun split_from :: "pystr \<Rightarrow> pystr \<Rightarrow> pystr list" where
  "split_from cur [] = (if cur = [] then [] else [cur])"
| "split_from cur (c # cs) =
     (if is_space c then (if cur = [] then split_from [] cs else cur # split_from [] cs)
      else split_from (cur @ [c]) cs)"

definition py_split :: "pystr \<Rightarrow> pystr list" where
  "py_split s = split_from [] s"

fun py_join :: "pystr \<Rightarrow> pystr list \<Rightarrow> pystr" where
  "py_join sep [] = []"
| "py_join sep [w] = w"
| "py_join sep (w # ws) = w @ sep @ py_join sep ws"

definition py_strip :: "pystr \<Rightarrow> pystr" where
  "py_strip s = rev (dropWhile is_space (rev (dropWhile is_space s)))"

section \<open>Normalizer (database\_manager.py)\<close>

definition kavarna :: pystr where
  "kavarna = ascii ''kav'' @ [225] @ ascii ''rna''"

definition cafe_acute :: pystr where
  "cafe_acute = ascii ''caf'' @ [233]"

text \<open>The body of \<open>normalize_name\<close> on a non-empty string.\<close>

definition normalize_str :: "pystr \<Rightarrow> pystr" where
  "normalize_str name0 =
     (let name = py_lower name0;
          name = py_replace (ascii ''restaurant'') [] (py_replace (ascii ''restaurace'') [] name);
          name = py_replace (ascii ''cafe'') []
                   (py_replace cafe_acute [] (py_replace kavarna [] name));
          name = py_replace (ascii ''-'') (ascii '' '') (py_replace (ascii ''&'') [] name);
          name = py_join (ascii '' '') (py_split name)
      in py_strip name)"

text \<open>
  \<open>normalize_name\<close>: a falsy argument (\<open>None\<close>, the empty string, 0, the empty list)
  gives the empty string; a truthy argument that is not a string has no \<open>lower\<close>.
\<close>

definition normalize_name :: "pyval \<Rightarrow> error + pystr" where
  "normalize_name name =
     (if \<not> truthy name then Inr []
      else (case name of PStr s \<Rightarrow> Inr (normalize_str s) | _ \<Rightarrow> Inl AttributeError))"

section \<open>ProgressStore: the businesses table (database\_manager.py)\<close>

text \<open>
  A column holds NULL (\<open>PNone\<close>), text or a number. The table is the list of its rows in
  rowid order, which is the order the model gives to a SELECT without ORDER BY.
\<close>

record business_row =
  b_id :: nat
  b_business_name :: pyval
  b_normalized_name :: pystr
  b_address :: pyval
  b_city :: pyval
  b_postal_code :: pyval
  b_phone :: pyval
  b_email :: pyval
  b_website :: pyval
  b_instagram :: pyval
  b_facebook :: pyval
  b_google_rating :: pyval
  b_google_place_id :: pyval
  b_niche :: pyval
  b_source :: pyval
  b_first_scraped_at :: datetime
  b_last_updated_at :: datetime
  b_scrape_count :: "int option"
  b_notes :: pyval

record business_db =
  businesses :: "business_row list"
  business_seq :: nat

text \<open>
  Binding a Python value to a statement parameter: a list cannot be bound. A number bound
  to a TEXT column and a string bound to the REAL column go through the column affinity
  of SQLite, which is not modelled.
\<close>

definition bind_text :: "pyval \<Rightarrow> error + pyval" where
  "bind_text v = (case v of PList _ \<Rightarrow> Inl InterfaceError | PNum _ \<Rightarrow> Inl Unmodelled | _ \<Rightarrow> Inr v)"

definition bind_real :: "pyval \<Rightarrow> error + pyval" where
  "bind_real v = (case v of PList _ \<Rightarrow> Inl InterfaceError | PStr _ \<Rightarrow> Inl Unmodelled | _ \<Rightarrow> Inr v)"

text \<open>SQL \<open>COALESCE(new, old)\<close>: the first argument unless it is NULL.\<close>

definition coalesce :: "pyval \<Rightarrow> pyval \<Rightarrow> pyval" where
  "coalesce new old = (if new = PNone then old else new)"

text \<open>
  SQL \<open>text LIKE pattern\<close> without ESCAPE: \<open>%\<close> (37) matches any run, \<open>_\<close> (95) any one
  code point, and ASCII letters match without regard to case.
\<close>

definition like_fold :: "nat \<Rightarrow> nat" where
  "like_fold c = (if 65 \<le> c \<and> c \<le> 90 then c + 32 else c)"

fun sql_like :: "pystr \<Rightarrow> pystr \<Rightarrow> bool" where
  "sql_like [] t = (t = [])"
| "sql_like (p # ps) [] = (p = 37 \<and> sql_like ps [])"
| "sql_like (p # ps) (c # cs) =
     (if p = 37 then sql_like ps (c # cs) \<or> sql_like (p # ps) cs
      else if p = 95 then sql_like ps cs
      else like_fold p = like_fold c \<and> sql_like ps cs)"

definition address_matches :: "pystr \<Rightarrow> pyval \<Rightarrow> bool" where
  "address_matches pat col =
     (case col of PNone \<Rightarrow> True | PStr t \<Rightarrow> sql_like pat t | _ \<Rightarrow> False)"

text \<open>
  \<open>business_exists\<close>: the id of the first row with the Google place id, else of the first
  row with the normalized name (and, when an address is given, an address that is NULL
  or contains the first 20 code points of the given one).
\<close>

definition lookup_by_name :: "business_db \<Rightarrow> pystr \<Rightarrow> pyval \<Rightarrow> error + nat option" where
  "lookup_by_name db normalized address =
     (if truthy address then
        (case address of
           PStr a \<Rightarrow>
             Inr (map_option b_id
               (find (\<lambda>r. b_normalized_name r = normalized
                          \<and> address_matches ([37] @ take 20 a @ [37]) (b_address r))
                     (businesses db)))
         | PNum _ \<Rightarrow> Inl TypeError
         | _ \<Rightarrow> Inl Unmodelled)
      else Inr (map_option b_id (find (\<lambda>r. b_normalized_name r = normalized) (businesses db))))"

definition business_exists :: "business_db \<Rightarrow> pyval \<Rightarrow> pyval \<Rightarrow> pyval \<Rightarrow> error + nat option" where
  "business_exists db business_name address google_place_id =
     (case (if truthy google_place_id then
              (case bind_text google_place_id of
                 Inl e \<Rightarrow> Inl e
               | Inr g \<Rightarrow> Inr (map_option b_id
                            (find (\<lambda>r. b_google_place_id r = g) (businesses db))))
            else Inr None) of
        Inl e \<Rightarrow> Inl e
      | Inr (Some i) \<Rightarrow> Inr (Some i)
      | Inr None \<Rightarrow>
          (case normalize_name business_name of
             Inl e \<Rightarrow> Inl e
           | Inr normalized \<Rightarrow>
               if normalized = [] then Inr None
               else lookup_by_name db normalized address))"

text \<open>Binding the parameters of a statement in order: the first failure is raised.\<close>

fun first_error :: "(error + pyval) list \<Rightarrow> error + unit" where
  "first_error [] = Inr ()"
| "first_error (Inl e # xs) = Inl e"
| "first_error (Inr v # xs) = first_error xs"

text \<open>The ten field parameters of the UPDATE (and of the INSERT).\<close>

definition bind_fields :: "dict \<Rightarrow> (error + pyval) list" where
  "bind_fields business =
     [bind_text (py_get business ''address'' PNone),
      bind_text (py_get business ''city'' PNone),
      bind_text (py_get business ''postal_code'' PNone),
      bind_text (py_get business ''phone'' PNone),
      bind_text (py_get business ''email'' PNone),
      bind_text (py_get business ''website'' PNone),
      bind_text (py_get business ''instagram'' PNone),
      bind_text (py_get business ''facebook'' PNone),
      bind_real (py_get business ''google_rating'' PNone),
      bind_text (py_get business ''notes'' PNone)]"

definition update_row :: "dict \<Rightarrow> datetime \<Rightarrow> business_row \<Rightarrow> business_row" where
  "update_row business ts r =
     r \<lparr> b_address := coalesce (py_get business ''address'' PNone) (b_address r),
         b_city := coalesce (py_get business ''city'' PNone) (b_city r),
         b_postal_code := coalesce (py_get business ''postal_code'' PNone) (b_postal_code r),
         b_phone := coalesce (py_get business ''phone'' PNone) (b_phone r),
         b_email := coalesce (py_get business ''email'' PNone) (b_email r),
         b_website := coalesce (py_get business ''website'' PNone) (b_website r),
         b_instagram := coalesce (py_get business ''instagram'' PNone) (b_instagram r),
         b_facebook := coalesce (py_get business ''facebook'' PNone) (b_facebook r),
         b_google_rating := coalesce (py_get business ''google_rating'' PNone) (b_google_rating r),
         b_last_updated_at := ts,
         b_scrape_count := map_option (\<lambda>n. n + 1) (b_scrape_count r),
         b_notes := coalesce (py_get business ''notes'' PNone) (b_notes r) \<rparr>"

text \<open>
  The INSERT: \<open>business_name\<close> is NOT NULL and \<open>google_place_id\<close> is UNIQUE (NULLs apart),
  so either can raise IntegrityError; the timestamps and the scrape count take their
  column defaults.
\<close>

datatype db_error = Py error | IntegrityError

definition insert_row :: "business_db \<Rightarrow> dict \<Rightarrow> pystr \<Rightarrow> datetime \<Rightarrow> db_error + business_db \<times> nat" where
  "insert_row db business normalized ts =
     (case first_error
             (bind_text (py_get business ''business_name'' PNone) # bind_fields business @
              [bind_text (py_get business ''google_place_id'' PNone),
               bind_text (py_get business ''niche'' PNone),
               bind_text (py_get business ''source'' PNone)]) of
        Inl e \<Rightarrow> Inl (Py e)
      | Inr _ \<Rightarrow>
          if py_get business ''business_name'' PNone = PNone then Inl IntegrityError
          else if py_get business ''google_place_id'' PNone \<noteq> PNone
                  \<and> py_get business ''google_place_id'' PNone
                      \<in> b_google_place_id ` set (businesses db) then Inl IntegrityError
          else
            let i = Suc (business_seq db);
                row = \<lparr> b_id = i, b_business_name = py_get business ''business_name'' PNone,
                        b_normalized_name = normalized,
                        b_address = py_get business ''address'' PNone,
                        b_city = py_get business ''city'' PNone,
                        b_postal_code = py_get business ''postal_code'' PNone,
                        b_phone = py_get business ''phone'' PNone,
                        b_email = py_get business ''email'' PNone,
                        b_website = py_get business ''website'' PNone,
                        b_instagram = py_get business ''instagram'' PNone,
                        b_facebook = py_get business ''facebook'' PNone,
                        b_google_rating = py_get business ''google_rating'' PNone,
                        b_google_place_id = py_get business ''google_place_id'' PNone,
                        b_niche = py_get business ''niche'' PNone,
                        b_source = py_get business ''source'' PNone,
                        b_first_scraped_at = ts, b_last_updated_at = ts,
                        b_scrape_count = Some 1,
                        b_notes = py_get business ''notes'' PNone \<rparr>
            in Inr (\<lparr> businesses = businesses db @ [row], business_seq = i \<rparr>, i))"

text \<open>
  \<open>add_business\<close>: \<open>if existing_id\<close> is false for \<open>None\<close> and for the id 0. \<open>ts\<close> is the
  value of \<open>CURRENT_TIMESTAMP\<close>. The result is the new table and the returned id.
\<close>

definition add_business :: "business_db \<Rightarrow> dict \<Rightarrow> datetime \<Rightarrow> db_error + business_db \<times> nat" where
  "add_business db business ts =
     (case normalize_name (py_get business ''business_name'' (PStr [])) of
        Inl e \<Rightarrow> Inl (Py e)
      | Inr normalized \<Rightarrow>
         (case business_exists db (py_get business ''business_name'' (PStr []))
                 (py_get business ''address'' PNone) (py_get business ''google_place_id'' PNone) of
            Inl e \<Rightarrow> Inl (Py e)
          | Inr existing \<Rightarrow>
              if existing \<noteq> None \<and> existing \<noteq> Some 0 then
                (case first_error (bind_fields business) of
                   Inl e \<Rightarrow> Inl (Py e)
                 | Inr _ \<Rightarrow>
                     Inr (db \<lparr> businesses :=
                                map (\<lambda>r. if b_id r = the existing then update_row business ts r else r)
                                    (businesses db) \<rparr>,
                          the existing))
              else insert_row db business normalized ts))"

text \<open>The row that holds an id (ids are the primary key).\<close>

definition select_business :: "business_db \<Rightarrow> nat \<Rightarrow> business_row option" where
  "select_business db i = find (\<lambda>r. b_id r = i) (businesses db)"

section \<open>Example tables and records\<close>

definition luna_row :: business_row where
  "luna_row = \<lparr> b_id = 1, b_business_name = PStr (ascii ''Luna''),
      b_normalized_name = ascii ''luna'', b_address = PNone, b_city = PStr (ascii ''Praha''),
      b_postal_code = PNone, b_phone = PStr (ascii ''+420111111111''), b_email = PNone,
      b_website = PNone, b_instagram = PNone, b_facebook = PNone, b_google_rating = PNone,
      b_google_place_id = PNone, b_niche = PStr (ascii ''cafes''),
      b_source = PStr (ascii ''google_maps''), b_first_scraped_at = 3, b_last_updated_at = 3,
      b_scrape_count = Some 1, b_notes = PNone \<rparr>"

definition luna_db :: business_db where
  "luna_db = \<lparr> businesses = [luna_row], business_seq = 1 \<rparr>"

definition luna_new_phone :: dict where
  "luna_new_phone = [(''business_name'', PStr (ascii ''Luna'')),
                     (''phone'', PStr (ascii ''+420222222222''))]"

definition luna_no_phone :: dict where
  "luna_no_phone = [(''business_name'', PStr (ascii ''Luna'')), (''phone'', PNone),
                    (''email'', PStr (ascii ''info@luna.cz''))]"

definition luna_empty_phone :: dict where
  "luna_empty_phone = [(''business_name'', PStr (ascii ''Luna'')), (''phone'', PStr [])]"

section \<open>Predicates used to state the properties of the Normalizer\<close>

text \<open>
  \<open>cased\<close>: the code points \<open>lower_char\<close> changes. \<open>lowered\<close>: a string \<open>str.lower()\<close>
  leaves as it is. \<open>wordlist\<close>: non-empty words without whitespace, as \<open>split()\<close> returns.
  \<open>descriptor_tokens\<close>: the five tokens \<open>normalize_name\<close> removes.
\<close>

definition cased :: "nat \<Rightarrow> bool" where
  "cased c = ((65 \<le> c \<and> c \<le> 90) \<or> (192 \<le> c \<and> c \<le> 222 \<and> c \<noteq> 215) \<or> c = 304
     \<or> (((256 \<le> c \<and> c \<le> 311) \<or> (330 \<le> c \<and> c \<le> 375)) \<and> even c)
     \<or> (((313 \<le> c \<and> c \<le> 328) \<or> (377 \<le> c \<and> c \<le> 382)) \<and> odd c) \<or> c = 376)"

definition lowered :: "pystr \<Rightarrow> bool" where
  "lowered s = (\<forall>c\<in>set s. lower_char c = [c])"

definition wordlist :: "pystr list \<Rightarrow> bool" where
  "wordlist ws = (\<forall>w\<in>set ws. w \<noteq> [] \<and> (\<forall>c\<in>set w. \<not> is_space c))"

definition descriptor_tokens :: "pystr list" where
  "descriptor_tokens =
     [ascii ''restaurace'', ascii ''restaurant'', kavarna, cafe_acute, ascii ''cafe'']"

section \<open>Prioritizer (processors/prioritizer.py)\<close>

text \<open>
  The scoring weights are a dictionary from names to integers; a missing name raises
  KeyError. Exceptions propagate through \<open>bind_err\<close>.
\<close>

type_synonym scoring = "(string \<times> int) list"

definition default_scoring :: scoring where
  "default_scoring = [(''no_website'', 100), (''poor_website'', 75), (''no_email'', 50),
                      (''no_social'', 25)]"

definition scoring_get :: "scoring \<Rightarrow> string \<Rightarrow> error + int" where
  "scoring_get cfg k = (case map_of cfg k of None \<Rightarrow> Inl KeyError | Some w \<Rightarrow> Inr w)"

definition bind_err :: "error + 'a \<Rightarrow> ('a \<Rightarrow> error + 'b) \<Rightarrow> error + 'b" where
  "bind_err m f = (case m of Inl e \<Rightarrow> Inl e | Inr x \<Rightarrow> f x)"

text \<open>\<open>v < c\<close> for a number \<open>c\<close>: only a number can be compared with it.\<close>

definition lt_num :: "pyval \<Rightarrow> rat \<Rightarrow> error + bool" where
  "lt_num v c = (case v of PNum r \<Rightarrow> Inr (r < c) | _ \<Rightarrow> Inl TypeError)"

text \<open>
  \<open>_add_note\<close>: the f-string of existing notes that are a string is the string itself;
  the formatting of truthy notes of another type is not modelled.
\<close>

definition add_note :: "pyval \<Rightarrow> pystr \<Rightarrow> error + pystr" where
  "add_note existing_notes new_note =
     (if truthy existing_notes then
        (case existing_notes of
           PStr s \<Rightarrow> Inr (s @ ascii ''; '' @ new_note)
         | _ \<Rightarrow> Inl Unmodelled)
      else Inr new_note)"

text \<open>
  The state of \<open>_calculate_priority_score\<close> is the running score and the business
  dictionary, which the function mutates. \<open>with_note delta text\<close> is
  \<open>score += delta; business['notes'] = self._add_note(business.get('notes', ''), text)\<close>.
\<close>

definition with_note :: "int \<Rightarrow> pystr \<Rightarrow> int \<times> dict \<Rightarrow> error + int \<times> dict" where
  "with_note delta text st =
     bind_err (add_note (py_get (snd st) ''notes'' (PStr [])) text)
       (\<lambda>n. Inr (fst st + delta, py_set (snd st) ''notes'' (PStr n)))"

definition rule_website :: "scoring \<Rightarrow> int \<times> dict \<Rightarrow> error + int \<times> dict" where
  "rule_website cfg st =
     (let website = py_get (snd st) ''website'' (PStr []);
          website_quality = py_get (snd st) ''website_quality_score'' (PNum 0)
      in if \<not> truthy website then
           bind_err (scoring_get cfg ''no_website'')
             (\<lambda>w. with_note w (ascii ''No website - High opportunity'') st)
         else
           bind_err (lt_num website_quality 50)
             (\<lambda>poor. if poor then
                        bind_err (scoring_get cfg ''poor_website'')
                          (\<lambda>w. with_note w (ascii ''Poor website quality'') st)
                      else Inr st))"

definition rule_email :: "scoring \<Rightarrow> int \<times> dict \<Rightarrow> error + int \<times> dict" where
  "rule_email cfg st =
     (if \<not> truthy (py_get (snd st) ''email'' (PStr [])) then
        bind_err (scoring_get cfg ''no_email'') (\<lambda>w. with_note w (ascii ''No email found'') st)
      else Inr st)"

definition rule_social :: "scoring \<Rightarrow> int \<times> dict \<Rightarrow> error + int \<times> dict" where
  "rule_social cfg st =
     (if \<not> truthy (py_get (snd st) ''instagram'' (PStr []))
         \<and> \<not> truthy (py_get (snd st) ''facebook'' (PStr [])) then
        bind_err (scoring_get cfg ''no_social'') (\<lambda>w. with_note w (ascii ''No social media'') st)
      else Inr st)"

definition rule_rating :: "int \<times> dict \<Rightarrow> error + int \<times> dict" where
  "rule_rating st =
     (let rating = py_get (snd st) ''google_rating'' PNone
      in if rating \<noteq> PNone then
           bind_err (lt_num rating (7 / 2))
             (\<lambda>low. if low then with_note (- 10) (ascii ''Low Google rating'') st else Inr st)
         else with_note 20 (ascii ''No Google reviews'') st)"

text \<open>\<open>'.cz' in website\<close>: a substring of a string, an element of a list.\<close>

definition py_contains :: "pystr \<Rightarrow> pyval \<Rightarrow> error + bool" where
  "py_contains x v =
     (case v of PStr s \<Rightarrow> Inr (sublist x s) | PList l \<Rightarrow> Inr (x \<in> set l) | _ \<Rightarrow> Inl TypeError)"

definition rule_cz :: "int \<times> dict \<Rightarrow> error + int \<times> dict" where
  "rule_cz st =
     (let website = py_get (snd st) ''website'' (PStr [])
      in if truthy website then
           bind_err (py_contains (ascii ''.cz'') website)
             (\<lambda>cz. if cz then Inr (fst st + 5, snd st) else Inr st)
         else Inr st)"

text \<open>The result is the clamped score and the mutated dictionary.\<close>

definition calculate_priority_score :: "scoring \<Rightarrow> dict \<Rightarrow> error + int \<times> dict" where
  "calculate_priority_score cfg business =
     bind_err (rule_website cfg (0, business)) (\<lambda>st.
     bind_err (rule_email cfg st) (\<lambda>st.
     bind_err (rule_social cfg st) (\<lambda>st.
     bind_err (rule_rating st) (\<lambda>st.
     bind_err (rule_cz st) (\<lambda>st.
     Inr (max 0 (min (fst st) 200), snd st))))))"

definition PRIORITY_IMMEDIATE :: pystr where "PRIORITY_IMMEDIATE = ascii ''IMMEDIATE OPPORTUNITY''"
definition PRIORITY_HIGH :: pystr where "PRIORITY_HIGH = ascii ''HIGH PRIORITY''"
definition PRIORITY_MEDIUM :: pystr where "PRIORITY_MEDIUM = ascii ''MEDIUM PRIORITY''"
definition PRIORITY_LOW :: pystr where "PRIORITY_LOW = ascii ''LOW PRIORITY''"

definition get_priority_category :: "int \<Rightarrow> pystr" where
  "get_priority_category score =
     (if score \<ge> 90 then PRIORITY_IMMEDIATE
      else if score \<ge> 75 then PRIORITY_HIGH
      else if score \<ge> 50 then PRIORITY_MEDIUM
      else PRIORITY_LOW)"

text \<open>The body of the loop of \<open>score_leads\<close> on one dictionary.\<close>

definition score_one :: "scoring \<Rightarrow> dict \<Rightarrow> error + dict" where
  "score_one cfg business =
     bind_err (calculate_priority_score cfg business)
       (\<lambda>r. Inr (py_set (py_set (snd r) ''priority_score'' (PNum (of_int (fst r))))
                    ''priority_category'' (PStr (get_priority_category (fst r)))))"

text \<open>
  \<open>score_leads\<close> mutates the dictionaries of its argument, so the dictionaries live in a
  heap (a list indexed by reference) and a list of businesses is a list of references.
  Every reference of a list is allocated; a dangling one is not a state of the program.
  \<open>scored.sort(key=..., reverse=True)\<close> is stable: CPython reverses the list, sorts it in
  ascending order and reverses it again.
\<close>

type_synonym heap = "dict list"

fun score_loop :: "scoring \<Rightarrow> heap \<Rightarrow> nat list \<Rightarrow> error + heap" where
  "score_loop cfg h [] = Inr h"
| "score_loop cfg h (r # rs) =
     (if r < length h then
        bind_err (score_one cfg (h ! r)) (\<lambda>b. score_loop cfg (h[r := b]) rs)
      else Inl Unmodelled)"

definition priority_key :: "heap \<Rightarrow> nat \<Rightarrow> rat" where
  "priority_key h r = (case map_of (h ! r) ''priority_score'' of Some (PNum q) \<Rightarrow> q | _ \<Rightarrow> 0)"

definition score_leads :: "scoring \<Rightarrow> heap \<Rightarrow> nat list \<Rightarrow> error + heap \<times> nat list" where
  "score_leads cfg h refs =
     bind_err (score_loop cfg h refs)
       (\<lambda>h'. Inr (h', rev (sort_key (priority_key h') (rev refs))))"

text \<open>
  The note texts of the rules a business triggers, in the order of evaluation (the
  bonus for a \<open>.cz\<close> domain has no note).
\<close>

definition triggered_notes :: "dict \<Rightarrow> pystr list" where
  "triggered_notes b =
     (if \<not> truthy (py_get b ''website'' (PStr [])) then [ascii ''No website - High opportunity'']
      else (case py_get b ''website_quality_score'' (PNum 0) of
              PNum q \<Rightarrow> if q < 50 then [ascii ''Poor website quality''] else []
            | _ \<Rightarrow> []))
     @ (if \<not> truthy (py_get b ''email'' (PStr [])) then [ascii ''No email found''] else [])
     @ (if \<not> truthy (py_get b ''instagram'' (PStr []))
           \<and> \<not> truthy (py_get b ''facebook'' (PStr [])) then [ascii ''No social media'']
        else [])
     @ (case py_get b ''google_rating'' PNone of
          PNone \<Rightarrow> [ascii ''No Google reviews'']
        | PNum q \<Rightarrow> if q < 7 / 2 then [ascii ''Low Google rating''] else []
        | _ \<Rightarrow> [])"

text \<open>The notes as a string: empty when the key is absent or its value is not a string.\<close>

definition notes_of :: "dict \<Rightarrow> pystr" where
  "notes_of b = (case py_get b ''notes'' (PStr []) of PStr s \<Rightarrow> s | _ \<Rightarrow> [])"

text \<open>The notes after the given note texts have been added one by one.\<close>

fun notes_after :: "pystr \<Rightarrow> pystr list \<Rightarrow> pystr" where
  "notes_after s [] = s"
| "notes_after s (n # ns) = notes_after (if s = [] then n else s @ ascii ''; '' @ n) ns"

section \<open>Predicates and examples used to state the properties of the Prioritizer\<close>

definition scored_ok :: "dict \<Rightarrow> bool" where
  "scored_ok b = (\<exists>s. map_of b ''priority_score'' = Some (PNum (of_int s)) \<and> 0 \<le> s \<and> s \<le> 200
     \<and> map_of b ''priority_category'' = Some (PStr (get_priority_category s)))"

definition lead0 :: dict where
  "lead0 = [(''business_name'', PStr (ascii ''Luna'')), (''website'', PStr []),
            (''email'', PNone), (''google_rating'', PNum (24 / 5))]"

definition signals :: "dict \<Rightarrow> pyval option list" where
  "signals b = map (map_of b) [''website'', ''website_quality_score'', ''email'',
                              ''instagram'', ''facebook'', ''google_rating'']"

definition website_notes :: "dict \<Rightarrow> pystr list" where
  "website_notes b =
     (if \<not> truthy (py_get b ''website'' (PStr [])) then [ascii ''No website - High opportunity'']
      else (case py_get b ''website_quality_score'' (PNum 0) of
              PNum q \<Rightarrow> if q < 50 then [ascii ''Poor website quality''] else []
            | _ \<Rightarrow> []))"

definition email_notes :: "dict \<Rightarrow> pystr list" where
  "email_notes b = (if \<not> truthy (py_get b ''email'' (PStr [])) then [ascii ''No email found''] else [])"

definition social_notes :: "dict \<Rightarrow> pystr list" where
  "social_notes b =
     (if \<not> truthy (py_get b ''instagram'' (PStr []))
         \<and> \<not> truthy (py_get b ''facebook'' (PStr [])) then [ascii ''No social media'']
      else [])"

definition rating_notes :: "dict \<Rightarrow> pystr list" where
  "rating_notes b =
     (case py_get b ''google_rating'' PNone of
        PNone \<Rightarrow> [ascii ''No Google reviews'']
      | PNum q \<Rightarrow> if q < 7 / 2 then [ascii ''Low Google rating''] else []
      | _ \<Rightarrow> [])"

text \<open>
  What a rule does on the state \<open>st\<close> of a run that returns \<open>st'\<close>, and on the state
  \<open>su\<close> of another run with the same signals: nothing, or the same \<open>with_note\<close>.
\<close>

definition same_step ::
  "pystr list \<Rightarrow> int \<times> dict \<Rightarrow> int \<times> dict \<Rightarrow> int \<times> dict \<Rightarrow> (error + int \<times> dict) \<Rightarrow> bool" where
  "same_step ns st st' su res =
     ((ns = [] \<and> st' = st \<and> res = Inr su)
      \<or> (\<exists>w text. ns = [text] \<and> with_note w text st = Inr st' \<and> res = with_note w text su))"

definition follows ::
  "pystr list \<Rightarrow> int \<times> dict \<Rightarrow> int \<times> dict \<Rightarrow> int \<times> dict \<Rightarrow> int \<times> dict \<Rightarrow> bool" where
  "follows ns st st' su su' =
     (fst su' - fst su = fst st' - fst st
      \<and> signals (snd su') = signals (snd su)
      \<and> notes_of (snd su') = notes_after (notes_of (snd su)) ns
      \<and> (ns = [] \<longrightarrow> su' = su)
      \<and> ((\<exists>n. py_get (snd su) ''notes'' (PStr []) = PStr n)
           \<longrightarrow> (\<exists>n. py_get (snd su') ''notes'' (PStr []) = PStr n)))"

definition lead0_scored :: dict where
  "lead0_scored = lead0 @
     [(''notes'', PStr (ascii ''No website - High opportunity; No email found; No social media'')),
      (''priority_score'', PNum 175), (''priority_category'', PStr PRIORITY_IMMEDIATE)]"

section \<open>Floating point numbers\<close>

text \<open>
  A Python \<open>float\<close> is an IEEE 754 binary64 number and is modelled by the rational it
  denotes. \<open>to_double q\<close> is the double nearest to \<open>q\<close>, ties to the even significand:
  the value of the literal or of the correctly rounded operation whose exact result is
  \<open>q\<close>. \<open>exponent q\<close> is the integer \<open>e\<close> with \<open>2^e \<le> q < 2^(e+1)\<close> for positive
  \<open>q\<close>, and the significand has 53 bits. Overflow and subnormal numbers are left out:
  they need a quotient of string lengths above \<open>2^1023\<close> or below \<open>2^-1022\<close>.
  \<open>calculate_ratio\<close> is difflib's \<open>_calculate_ratio\<close>, \<open>2.0 * matches / length\<close>: both
  integers are converted to floats and the quotient is rounded.
\<close>

fun bit_length :: "nat \<Rightarrow> nat" where
  "bit_length n = (if n = 0 then 0 else Suc (bit_length (n div 2)))"

declare bit_length.simps [simp del]

definition exponent :: "rat \<Rightarrow> int" where
  "exponent q =
     (if 1 \<le> q then int (bit_length (nat \<lfloor>q\<rfloor>)) - 1
      else (let k = int (bit_length (nat \<lfloor>1 / q\<rfloor>))
            in if q = 2 powi (1 - k) then 1 - k else - k))"

definition round_half_even :: "rat \<Rightarrow> int" where
  "round_half_even x =
     (let f = \<lfloor>x\<rfloor>; r = x - of_int f
      in if r < 1 / 2 then f else if 1 / 2 < r then f + 1 else if even f then f else f + 1)"

definition to_double :: "rat \<Rightarrow> rat" where
  "to_double q =
     (if q = 0 then 0
      else (let u = 2 powi (exponent \<bar>q\<bar> - 52)
            in sgn q * of_int (round_half_even (\<bar>q\<bar> / u)) * u))"

definition calculate_ratio :: "nat \<Rightarrow> nat \<Rightarrow> rat" where
  "calculate_ratio matches len =
     (if len \<noteq> 0 then to_double (2 * to_double (of_nat matches) / to_double (of_nat len))
      else 1)"

section \<open>Sequence matching (Python's difflib, used by the Deduplicator)\<close>

text \<open>
  \<open>_calculate_similarity\<close> is \<open>SequenceMatcher(None, str1, str2).ratio()\<close> of the Python
  standard library, which is not part of the repository; this is its algorithm as
  CPython implements it, without a junk predicate. \<open>b2j b elt\<close> are the positions of \<open>elt\<close>
  in \<open>b\<close>; for \<open>b\<close> of 200 elements or more, an element that fills more than 1% of \<open>b\<close>
  (plus one) is "popular" and has no positions.
\<close>

definition b2j :: "pystr \<Rightarrow> nat \<Rightarrow> nat list" where
  "b2j b elt =
     (let idxs = filter (\<lambda>j. b ! j = elt) [0..<length b]
      in if length b \<ge> 200 \<and> length idxs > length b div 100 + 1 then [] else idxs)"

type_synonym match = "nat \<times> nat \<times> nat"

text \<open>
  \<open>find_longest_match\<close>: for every \<open>i\<close> of \<open>range(alo, ahi)\<close> (\<open>flm_outer\<close>) and every
  position \<open>j\<close> of \<open>a[i]\<close> in \<open>b\<close> (\<open>flm_inner\<close>), \<open>k\<close> is the length of the match that
  ends at \<open>a[i]\<close> and \<open>b[j]\<close>; \<open>j2len\<close> holds the lengths of the previous \<open>i\<close>. The state
  is the best match \<open>(besti, bestj, bestsize)\<close> and the new \<open>j2len\<close>. \<open>i + 1 - k\<close> is
  \<open>i - k + 1\<close>, as \<open>k \<le> i + 1\<close>.
\<close>

fun flm_inner ::
  "nat \<Rightarrow> nat \<Rightarrow> nat \<Rightarrow> (nat \<rightharpoonup> nat) \<Rightarrow> nat list \<Rightarrow> match \<times> (nat \<rightharpoonup> nat) \<Rightarrow> match \<times> (nat \<rightharpoonup> nat)" where
  "flm_inner i blo bhi j2len [] acc = acc"
| "flm_inner i blo bhi j2len (j # js) acc =
     (if j < blo then flm_inner i blo bhi j2len js acc
      else if j \<ge> bhi then acc
      else
        let k = (if j = 0 then 0 else (case j2len (j - 1) of None \<Rightarrow> 0 | Some v \<Rightarrow> v)) + 1
        in flm_inner i blo bhi j2len js
             (if k > snd (snd (fst acc)) then (i + 1 - k, j + 1 - k, k) else fst acc,
              (snd acc)(j \<mapsto> k)))"

function flm_outer ::
  "pystr \<Rightarrow> pystr \<Rightarrow> nat \<Rightarrow> nat \<Rightarrow> nat \<Rightarrow> nat \<Rightarrow> match \<times> (nat \<rightharpoonup> nat) \<Rightarrow> match" where
  "flm_outer a b blo bhi i ahi st =
     (if i < ahi then
        flm_outer a b blo bhi (Suc i) ahi
          (flm_inner i blo bhi (snd st) (b2j b (a ! i)) (fst st, Map.empty))
      else fst st)"
  by pat_completeness auto
termination
  by (relation "measure (\<lambda>(a, b, blo, bhi, i, ahi, st). ahi - i)") auto

declare flm_outer.simps [simp del]

text \<open>The two loops that extend the best match by equal elements on each end.\<close>

function extend_left :: "pystr \<Rightarrow> pystr \<Rightarrow> nat \<Rightarrow> nat \<Rightarrow> match \<Rightarrow> match" where
  "extend_left a b alo blo m =
     (case m of (besti, bestj, bestsize) \<Rightarrow>
        if besti > alo \<and> bestj > blo \<and> a ! (besti - 1) = b ! (bestj - 1)
        then extend_left a b alo blo (besti - 1, bestj - 1, bestsize + 1)
        else m)"
  by pat_completeness auto
termination
  by (relation "measure (\<lambda>(a, b, alo, blo, m). fst m)") auto

declare extend_left.simps [simp del]

function extend_right :: "pystr \<Rightarrow> pystr \<Rightarrow> nat \<Rightarrow> nat \<Rightarrow> match \<Rightarrow> match" where
  "extend_right a b ahi bhi m =
     (case m of (besti, bestj, bestsize) \<Rightarrow>
        if besti + bestsize < ahi \<and> bestj + bestsize < bhi
           \<and> a ! (besti + bestsize) = b ! (bestj + bestsize)
        then extend_right a b ahi bhi (besti, bestj, bestsize + 1)
        else m)"
  by pat_completeness auto
termination
  by (relation "measure (\<lambda>(a, b, ahi, bhi, m). ahi - (fst m + snd (snd m)))") auto

declare extend_right.simps [simp del]

definition find_longest_match :: "pystr \<Rightarrow> pystr \<Rightarrow> nat \<Rightarrow> nat \<Rightarrow> nat \<Rightarrow> nat \<Rightarrow> match" where
  "find_longest_match a b alo ahi blo bhi =
     extend_right a b ahi bhi
       (extend_left a b alo blo
          (flm_outer a b blo bhi alo ahi ((alo, blo, 0), Map.empty)))"

text \<open>
  The match found lies inside \<open>a[alo:ahi]\<close>; this is what makes the loop of
  \<open>get_matching_blocks\<close> terminate.
\<close>

lemma flm_inner_inv:
  assumes "\<forall>j v. j2len j = Some v \<longrightarrow> v + alo \<le> i" and "alo \<le> i"
    and "alo \<le> fst (fst acc)" and "fst (fst acc) + snd (snd (fst acc)) \<le> Suc i"
    and "\<forall>j v. snd acc j = Some v \<longrightarrow> v + alo \<le> Suc i"
  shows "alo \<le> fst (fst (flm_inner i blo bhi j2len js acc))
     \<and> fst (fst (flm_inner i blo bhi j2len js acc))
         + snd (snd (fst (flm_inner i blo bhi j2len js acc))) \<le> Suc i
     \<and> (\<forall>j v. snd (flm_inner i blo bhi j2len js acc) j = Some v \<longrightarrow> v + alo \<le> Suc i)"
  using assms(3-5)
proof (induction js arbitrary: acc)
  case Nil
  then show ?case by simp
next
  case (Cons j js)
  show ?case
  proof (cases "j < blo")
    case True
    then show ?thesis using Cons by simp
  next
    case nlo: False
    show ?thesis
    proof (cases "j \<ge> bhi")
      case True
      then show ?thesis using nlo Cons.prems by simp
    next
      case False
      define k where "k = (if j = 0 then 0 else (case j2len (j - 1) of None \<Rightarrow> 0 | Some v \<Rightarrow> v)) + 1"
      have kb: "k + alo \<le> Suc i" "1 \<le> k"
        using assms(1,2) by (auto simp: k_def split: option.splits)
      define acc' where "acc' = (if k > snd (snd (fst acc)) then (i + 1 - k, j + 1 - k, k) else fst acc,
              (snd acc)(j \<mapsto> k))"
      have step: "flm_inner i blo bhi j2len (j # js) acc = flm_inner i blo bhi j2len js acc'"
        using nlo False by (simp add: k_def acc'_def Let_def)
      have "alo \<le> fst (fst acc')" "fst (fst acc') + snd (snd (fst acc')) \<le> Suc i"
        "\<forall>j v. snd acc' j = Some v \<longrightarrow> v + alo \<le> Suc i"
        using kb Cons.prems by (auto simp: acc'_def)
      then show ?thesis unfolding step by (rule Cons.IH)
    qed
  qed
qed

lemma flm_outer_inv:
  "alo \<le> i \<Longrightarrow> alo \<le> fst (fst st) \<Longrightarrow> fst (fst st) + snd (snd (fst st)) \<le> i \<Longrightarrow>
   \<forall>j v. snd st j = Some v \<longrightarrow> v + alo \<le> i \<Longrightarrow>
   alo \<le> fst (flm_outer a b blo bhi i ahi st)
   \<and> fst (flm_outer a b blo bhi i ahi st) + snd (snd (flm_outer a b blo bhi i ahi st)) \<le> max i ahi"
proof (induction a b blo bhi i ahi st rule: flm_outer.induct)
  case (1 a b blo bhi i ahi st)
  show ?case
  proof (cases "i < ahi")
    case False
    then show ?thesis using 1(2-5) by (simp add: flm_outer.simps)
  next
    case True
    define st' where "st' = flm_inner i blo bhi (snd st) (b2j b (a ! i)) (fst st, Map.empty)"
    have inv: "alo \<le> fst (fst st') \<and> fst (fst st') + snd (snd (fst st')) \<le> Suc i
       \<and> (\<forall>j v. snd st' j = Some v \<longrightarrow> v + alo \<le> Suc i)"
      unfolding st'_def using 1(2-5) by (intro flm_inner_inv) auto
    have "alo \<le> fst (flm_outer a b blo bhi (Suc i) ahi st')
       \<and> fst (flm_outer a b blo bhi (Suc i) ahi st')
           + snd (snd (flm_outer a b blo bhi (Suc i) ahi st')) \<le> max (Suc i) ahi"
      using 1(1)[OF True] 1(2) inv unfolding st'_def by simp
    moreover have "flm_outer a b blo bhi i ahi st = flm_outer a b blo bhi (Suc i) ahi st'"
      using True by (subst flm_outer.simps) (simp add: st'_def)
    ultimately show ?thesis using True by simp
  qed
qed

lemma extend_left_inv:
  "alo \<le> fst m \<Longrightarrow> alo \<le> fst (extend_left a b alo blo m)
     \<and> fst (extend_left a b alo blo m) + snd (snd (extend_left a b alo blo m))
         = fst m + snd (snd m)"
proof (induction a b alo blo m rule: extend_left.induct)
  case (1 a b alo blo m)
  obtain besti bestj bestsize where m: "m = (besti, bestj, bestsize)" by (cases m) auto
  show ?case
  proof (cases "besti > alo \<and> bestj > blo \<and> a ! (besti - 1) = b ! (bestj - 1)")
    case True
    have "alo \<le> fst (besti - 1, bestj - 1, bestsize + 1)" using True by auto
    from 1(1)[OF m[symmetric] refl True this] True show ?thesis
      by (subst (1 2 3) extend_left.simps) (simp add: m)
  next
    case False
    then show ?thesis using 1(2) by (subst (1 2 3) extend_left.simps) (auto simp: m)
  qed
qed

lemma extend_right_inv:
  "fst (extend_right a b ahi bhi m) = fst m
     \<and> fst (extend_right a b ahi bhi m) + snd (snd (extend_right a b ahi bhi m))
         \<le> max (fst m + snd (snd m)) ahi"
proof (induction a b ahi bhi m rule: extend_right.induct)
  case (1 a b ahi bhi m)
  obtain besti bestj bestsize where m: "m = (besti, bestj, bestsize)" by (cases m) auto
  show ?case
  proof (cases "besti + bestsize < ahi \<and> bestj + bestsize < bhi
           \<and> a ! (besti + bestsize) = b ! (bestj + bestsize)")
    case True
    from 1(1)[OF m[symmetric] refl True] True show ?thesis
      by (subst (1 2 3) extend_right.simps) (auto simp: m)
  next
    case False
    then show ?thesis by (subst (1 2 3) extend_right.simps) (auto simp: m)
  qed
qed

lemma find_longest_match_bounds:
  assumes "find_longest_match a b alo ahi blo bhi = (i, j, k)"
  shows "alo \<le> i \<and> i + k \<le> max alo ahi"
proof -
  define m0 where "m0 = flm_outer a b blo bhi alo ahi ((alo, blo, 0), Map.empty)"
  define m1 where "m1 = extend_left a b alo blo m0"
  have 0: "alo \<le> fst m0 \<and> fst m0 + snd (snd m0) \<le> max alo ahi"
    unfolding m0_def by (rule flm_outer_inv) auto
  have 1: "alo \<le> fst m1 \<and> fst m1 + snd (snd m1) = fst m0 + snd (snd m0)"
    unfolding m1_def using 0 by (intro extend_left_inv) simp
  have 2: "fst (extend_right a b ahi bhi m1) = fst m1
     \<and> fst (extend_right a b ahi bhi m1) + snd (snd (extend_right a b ahi bhi m1))
         \<le> max (fst m1 + snd (snd m1)) ahi"
    by (rule extend_right_inv)
  have "extend_right a b ahi bhi m1 = (i, j, k)"
    using assms by (simp add: find_longest_match_def m1_def m0_def)
  then show ?thesis using 0 1 2 by auto
qed

text \<open>
  \<open>get_matching_blocks\<close>: the queue is a stack of ranges \<open>(alo, ahi, blo, bhi)\<close> whose
  top is the head of the list; the range to the left of a match is pushed before the
  range to its right. \<open>ratio\<close> sums the sizes of the blocks; sorting the blocks and
  merging adjacent ones, which \<open>get_matching_blocks\<close> does before it returns, leaves
  that sum as it is.
\<close>

type_synonym range4 = "nat \<times> nat \<times> nat \<times> nat"

definition queue_weight :: "range4 list \<Rightarrow> nat" where
  "queue_weight q = sum_list (map (\<lambda>(alo, ahi, blo, bhi). 2 * (ahi - alo) + 1) q)"

function matching_blocks_loop :: "pystr \<Rightarrow> pystr \<Rightarrow> range4 list \<Rightarrow> match list \<Rightarrow> match list" where
  "matching_blocks_loop a b [] acc = acc"
| "matching_blocks_loop a b ((alo, ahi, blo, bhi) # queue) acc =
     (case find_longest_match a b alo ahi blo bhi of
        (i, j, k) \<Rightarrow>
          if k \<noteq> 0 then
            matching_blocks_loop a b
              ((if i + k < ahi \<and> j + k < bhi then [(i + k, ahi, j + k, bhi)] else [])
               @ (if alo < i \<and> blo < j then [(alo, i, blo, j)] else []) @ queue)
              (acc @ [(i, j, k)])
          else matching_blocks_loop a b queue acc)"
  by pat_completeness auto
termination
proof (relation "measure (\<lambda>(a, b, q, acc). queue_weight q)")
  show "wf (measure (\<lambda>(a, b, q, acc). queue_weight q))" by simp
next
  fix a b :: pystr and alo ahi blo bhi :: nat and queue :: "range4 list"
    and acc :: "match list" and i j k :: nat and y :: "nat \<times> nat"
  assume "(i, y) = find_longest_match a b alo ahi blo bhi" "(j, k) = y" "k \<noteq> 0"
  then have f: "find_longest_match a b alo ahi blo bhi = (i, j, k)" by simp
  from find_longest_match_bounds[OF f] \<open>k \<noteq> 0\<close> have "alo \<le> i" "i + k \<le> ahi"
    by (auto simp: max_def split: if_splits)
  then show "((a, b, (if i + k < ahi \<and> j + k < bhi then [(i + k, ahi, j + k, bhi)] else [])
               @ (if alo < i \<and> blo < j then [(alo, i, blo, j)] else []) @ queue, acc @ [(i, j, k)]),
              (a, b, (alo, ahi, blo, bhi) # queue, acc))
            \<in> measure (\<lambda>(a, b, q, acc). queue_weight q)"
    using \<open>k \<noteq> 0\<close> by (auto simp: queue_weight_def)
next
  fix a b :: pystr and alo ahi blo bhi :: nat and queue :: "range4 list" and acc :: "match list"
  show "((a, b, queue, acc), (a, b, (alo, ahi, blo, bhi) # queue, acc))
            \<in> measure (\<lambda>(a, b, q, acc). queue_weight q)"
    by (simp add: queue_weight_def)
qed

definition ratio :: "pystr \<Rightarrow> pystr \<Rightarrow> rat" where
  "ratio a b =
     (let matches = sum_list (map (\<lambda>(i, j, k). k)
                      (matching_blocks_loop a b [(0, length a, 0, length b)] []))
      in calculate_ratio matches (length a + length b))"

section \<open>Deduplicator (processors/deduplicator.py)\<close>

text \<open>
  The similarity threshold \<open>th\<close> is the value of the number \<open>self.similarity_threshold\<close>;
  \<open>default_similarity_threshold\<close> is the default of the constructor, the literal \<open>0.9\<close>.
  The ratio is a float, and Python compares the two numbers by their values.
  \<open>lower_strip v\<close> is \<open>v.lower().strip()\<close>, which only a string has.
\<close>

definition default_similarity_threshold :: rat where
  "default_similarity_threshold = to_double (9 / 10)"

definition calculate_similarity :: "pystr \<Rightarrow> pystr \<Rightarrow> rat" where
  "calculate_similarity str1 str2 = ratio str1 str2"

definition lower_strip :: "pyval \<Rightarrow> error + pystr" where
  "lower_strip v = (case v of PStr s \<Rightarrow> Inr (py_strip (py_lower s)) | _ \<Rightarrow> Inl AttributeError)"

fun fuzzy_loop :: "rat \<Rightarrow> pystr \<Rightarrow> pystr \<Rightarrow> dict list \<Rightarrow> nat \<Rightarrow> error + nat option" where
  "fuzzy_loop th target_name target_address [] idx = Inr None"
| "fuzzy_loop th target_name target_address (candidate # candidates) idx =
     (case lower_strip (py_get candidate ''business_name'' (PStr [])) of
        Inl e \<Rightarrow> Inl e
      | Inr candidate_name \<Rightarrow>
          if candidate_name = [] then
            fuzzy_loop th target_name target_address candidates (Suc idx)
          else if calculate_similarity target_name candidate_name \<ge> th then
            (case lower_strip (py_get candidate ''address'' (PStr [])) of
               Inl e \<Rightarrow> Inl e
             | Inr candidate_address \<Rightarrow>
                 if target_address \<noteq> [] \<and> candidate_address \<noteq> []
                    \<and> calculate_similarity target_address candidate_address < 1 / 2
                 then fuzzy_loop th target_name target_address candidates (Suc idx)
                 else Inr (Some idx))
          else fuzzy_loop th target_name target_address candidates (Suc idx))"

definition find_fuzzy_duplicate :: "rat \<Rightarrow> dict \<Rightarrow> dict list \<Rightarrow> nat \<Rightarrow> error + nat option" where
  "find_fuzzy_duplicate th target candidates start_index =
     bind_err (lower_strip (py_get target ''business_name'' (PStr []))) (\<lambda>target_name.
     bind_err (lower_strip (py_get target ''address'' (PStr []))) (\<lambda>target_address.
     if target_name = [] then Inr None
     else fuzzy_loop th target_name target_address candidates start_index))"

text \<open>
  \<open>_merge_duplicates\<close>. \<open>py_gt v w\<close> is \<open>v > w\<close>: numbers, strings and lists compare
  with their own kind only. \<open>py_set_of v\<close> are the elements of \<open>set(v)\<close>.
  \<open>list(a.union(b))\<close> has the elements of both sets in an order Python does not
  specify; the model lists each element once (\<open>remdups\<close>).
\<close>

definition completeness :: "dict \<Rightarrow> nat" where
  "completeness d = length (filter (\<lambda>kv. truthy (snd kv)) d)"

fun lex_less :: "('a \<Rightarrow> 'a \<Rightarrow> bool) \<Rightarrow> 'a list \<Rightarrow> 'a list \<Rightarrow> bool" where
  "lex_less lt [] [] = False"
| "lex_less lt [] (y # ys) = True"
| "lex_less lt (x # xs) [] = False"
| "lex_less lt (x # xs) (y # ys) = (if x = y then lex_less lt xs ys else lt x y)"

definition py_gt :: "pyval \<Rightarrow> pyval \<Rightarrow> error + bool" where
  "py_gt v w =
     (case (v, w) of
        (PNum x, PNum y) \<Rightarrow> Inr (y < x)
      | (PStr x, PStr y) \<Rightarrow> Inr (lex_less (<) y x)
      | (PList x, PList y) \<Rightarrow> Inr (lex_less (lex_less (<)) y x)
      | _ \<Rightarrow> Inl TypeError)"

definition py_set_of :: "pyval \<Rightarrow> error + pystr list" where
  "py_set_of v =
     (case v of PList l \<Rightarrow> Inr l | PStr s \<Rightarrow> Inr (map (\<lambda>c. [c]) s) | _ \<Rightarrow> Inl TypeError)"

fun fill_missing :: "dict \<Rightarrow> dict \<Rightarrow> dict" where
  "fill_missing [] merged = merged"
| "fill_missing ((key, v) # items) merged =
     fill_missing items
       (if truthy v \<and> \<not> truthy (py_get merged key PNone) then py_set merged key v else merged)"

definition merge_rating :: "dict \<Rightarrow> dict \<Rightarrow> error + dict" where
  "merge_rating source merged =
     (if map_of source ''google_rating'' \<noteq> None
         \<and> truthy (py_get source ''google_rating'' PNone) then
        (let merged_rating = py_get merged ''google_rating'' PNone
         in if merged_rating = PNone then
              Inr (py_set merged ''google_rating'' (py_get source ''google_rating'' PNone))
            else
              bind_err (py_gt (py_get source ''google_rating'' PNone) merged_rating)
                (\<lambda>higher. Inr (if higher
                               then py_set merged ''google_rating''
                                      (py_get source ''google_rating'' PNone)
                               else merged)))
      else Inr merged)"

definition merge_quality :: "dict \<Rightarrow> dict \<Rightarrow> error + dict" where
  "merge_quality source merged =
     (if map_of source ''website_quality_score'' \<noteq> None then
        bind_err (py_gt (py_get source ''website_quality_score'' PNone)
                        (py_get merged ''website_quality_score'' (PNum 0)))
          (\<lambda>higher. Inr (if higher
                         then py_set merged ''website_quality_score''
                                (py_get source ''website_quality_score'' PNone)
                         else merged))
      else Inr merged)"

definition merge_activities :: "dict \<Rightarrow> dict \<Rightarrow> error + dict" where
  "merge_activities source merged =
     bind_err (py_set_of (py_get merged ''business_activities'' (PList []))) (\<lambda>activities1.
     bind_err (py_set_of (py_get source ''business_activities'' (PList []))) (\<lambda>activities2.
     Inr (py_set merged ''business_activities'' (PList (remdups (activities1 @ activities2))))))"

definition merge_duplicates :: "dict \<Rightarrow> dict \<Rightarrow> error + dict" where
  "merge_duplicates business1 business2 =
     (let merged = (if completeness business1 \<ge> completeness business2 then business1 else business2);
          source = (if completeness business1 \<ge> completeness business2 then business2 else business1)
      in bind_err (merge_rating source (fill_missing source merged)) (\<lambda>merged.
         bind_err (merge_quality source merged) (\<lambda>merged.
         merge_activities source merged)))"

text \<open>
  \<open>deduplicate\<close>: the state of the loop. A list is not hashable, so looking it up in a
  set raises TypeError. \<open>mark_seen business i kept\<close> is the end of the loop body:
  \<open>kept\<close> is appended to the result and the keys of \<open>business\<close> are marked as seen.
\<close>

record dedup_state =
  unique_businesses :: "dict list"
  seen_icos :: "pyval set"
  seen_phones :: "pyval set"
  processed_indices :: "nat set"

definition py_in :: "pyval \<Rightarrow> pyval set \<Rightarrow> error + bool" where
  "py_in v seen = (case v of PList _ \<Rightarrow> Inl TypeError | _ \<Rightarrow> Inr (v \<in> seen))"

definition seen_before :: "pyval \<Rightarrow> pyval set \<Rightarrow> error + bool" where
  "seen_before v seen = (if truthy v then py_in v seen else Inr False)"

definition mark_seen :: "dict \<Rightarrow> nat \<Rightarrow> dict \<Rightarrow> dedup_state \<Rightarrow> dedup_state" where
  "mark_seen business i kept st =
     (let ico = py_get business ''ico'' (PStr []); phone = py_get business ''phone'' (PStr [])
      in st \<lparr> unique_businesses := unique_businesses st @ [kept],
              seen_icos := (if truthy ico then insert ico (seen_icos st) else seen_icos st),
              seen_phones := (if truthy phone then insert phone (seen_phones st)
                              else seen_phones st),
              processed_indices := insert i (processed_indices st) \<rparr>)"

fun dedup_loop :: "rat \<Rightarrow> dict list \<Rightarrow> nat list \<Rightarrow> dedup_state \<Rightarrow> error + dict list" where
  "dedup_loop th bs [] st = Inr (unique_businesses st)"
| "dedup_loop th bs (i # rest) st =
     (if i \<in> processed_indices st then dedup_loop th bs rest st
      else
        (case seen_before (py_get (bs ! i) ''ico'' (PStr [])) (seen_icos st) of
           Inl e \<Rightarrow> Inl e
         | Inr True \<Rightarrow> dedup_loop th bs rest st
         | Inr False \<Rightarrow>
            (case seen_before (py_get (bs ! i) ''phone'' (PStr [])) (seen_phones st) of
               Inl e \<Rightarrow> Inl e
             | Inr True \<Rightarrow> dedup_loop th bs rest st
             | Inr False \<Rightarrow>
                (case find_fuzzy_duplicate th (bs ! i) (drop (i + 1) bs) (i + 1) of
                   Inl e \<Rightarrow> Inl e
                 | Inr None \<Rightarrow> dedup_loop th bs rest (mark_seen (bs ! i) i (bs ! i) st)
                 | Inr (Some duplicate_index) \<Rightarrow>
                    (case merge_duplicates (bs ! i) (bs ! duplicate_index) of
                       Inl e \<Rightarrow> Inl e
                     | Inr merged \<Rightarrow>
                         dedup_loop th bs rest
                           (mark_seen (bs ! i) i merged
                              (st \<lparr> processed_indices :=
                                      insert duplicate_index (processed_indices st) \<rparr>)))))))"

definition deduplicate :: "rat \<Rightarrow> dict list \<Rightarrow> error + dict list" where
  "deduplicate th bs =
     (if bs = [] then Inr []
      else dedup_loop th bs [0..<length bs]
             \<lparr> unique_businesses = [], seen_icos = {}, seen_phones = {},
               processed_indices = {} \<rparr>)"

definition pratelstvi_a :: dict where
  "pratelstvi_a = [(''business_name'', PStr [75, 97, 118, 225, 114, 110, 97, 32, 80, 345, 225, 116, 101, 108, 115, 116, 118, 237]),
                   (''address'', PStr [80, 114, 97, 104, 97, 32, 49, 44, 32, 72, 121, 98, 101, 114, 110, 115, 107, 225, 32, 55])]"

definition pratelstvi_b :: dict where
  "pratelstvi_b = [(''business_name'', PStr (ascii ''kavarna pratelstvi'')),
                   (''address'', PStr (ascii ''Praha 1, Hybernska7''))]"

section \<open>Predicates and examples used to state the properties of the Deduplicator\<close>













section \<open>Properties of the area\_progress table\<close>

lemma select_area_mark:
  "select_area (mark_area_scraped db n c a k bf ts) n c a k =
     Some \<lparr> ar_id = Suc (area_seq db), ar_niche = n, ar_city = c, ar_area = a,
            ar_keyword = k, ar_last_scraped_at = Some ts, ar_businesses_found = Some bf,
            ar_completed = Some (if bf \<ge> 50 then 1 else 0),
            ar_quality_score = Some (calculate_scrape_quality bf) \<rparr>"
proof -
  have "find (same_area n c a k) (filter (\<lambda>r. \<not> same_area n c a k r) rows @ [row])
          = Some row" if "same_area n c a k row" for rows row
    using that by (induction rows) auto
  then show ?thesis
    by (simp add: select_area_def mark_area_scraped_def Let_def same_area_def
        MIN_RESULTS_FOR_COMPLETION_def)
qed

text \<open>
  C1. \<open>is_area_scraped\<close> returns True exactly when the SELECT finds a row whose
  \<open>completed\<close> is true, whose \<open>businesses_found\<close> is at least 50 and whose
  \<open>last_scraped_at\<close> is less than 7 days before \<open>datetime.now()\<close>. It returns False
  for a row with \<open>businesses_found < 50\<close> whatever \<open>completed\<close> holds, False for a
  complete row scraped 7 days and 1 second ago, and True for a row with
  \<open>completed = 1\<close>, \<open>businesses_found = 50\<close> scraped 6 days 23 hours ago.
\<close>

theorem is_area_scraped_quality_gate:
  "(is_area_scraped db n c a k now = Inr True \<longleftrightarrow>
      (\<exists>r. select_area db n c a k = Some r
         \<and> (\<exists>f. ar_completed r = Some f \<and> f \<noteq> 0)
         \<and> (\<exists>bf. ar_businesses_found r = Some bf \<and> MIN_RESULTS_FOR_COMPLETION \<le> bf)
         \<and> (\<exists>t. ar_last_scraped_at r = Some t \<and> now - t < timedelta_days 7)))
   \<and> (select_area db n c a k = Some r \<and> ar_businesses_found r = Some bf \<and> bf < 50
        \<longrightarrow> is_area_scraped db n c a k now = Inr False)
   \<and> (select_area db n c a k = Some r \<and> ar_completed r = Some 1
        \<and> ar_businesses_found r = Some bf \<and> 50 \<le> bf
        \<and> ar_last_scraped_at r = Some (now - (timedelta_days 7 + timedelta_seconds 1))
        \<longrightarrow> is_area_scraped db n c a k now = Inr False)
   \<and> (select_area db n c a k = Some r \<and> ar_completed r = Some 1
        \<and> ar_businesses_found r = Some 50
        \<and> ar_last_scraped_at r = Some (now - (timedelta_days 6 + timedelta_hours 23))
        \<longrightarrow> is_area_scraped db n c a k now = Inr True)"
  by (auto simp: is_area_scraped_def MIN_RESULTS_FOR_COMPLETION_def timedelta_days_def
      timedelta_hours_def timedelta_seconds_def split: option.splits)

theorem is_area_scraped_quality_gate_witness:
  "is_area_scraped
     \<lparr> area_progress = [\<lparr> ar_id = 1, ar_niche = ascii ''cafes'', ar_city = ascii ''Praha'',
          ar_area = ascii ''Praha 1'', ar_keyword = ascii ''kavarna'',
          ar_last_scraped_at = Some (1000 - (timedelta_days 6 + timedelta_hours 23)),
          ar_businesses_found = Some 50, ar_completed = Some 1,
          ar_quality_score = Some 80 \<rparr>], area_seq = 1 \<rparr>
     (ascii ''cafes'') (ascii ''Praha'') (ascii ''Praha 1'') (ascii ''kavarna'') 1000
   = Inr True"
  using is_area_scraped_quality_gate
    [of "\<lparr> area_progress = [\<lparr> ar_id = 1, ar_niche = ascii ''cafes'', ar_city = ascii ''Praha'',
          ar_area = ascii ''Praha 1'', ar_keyword = ascii ''kavarna'',
          ar_last_scraped_at = Some (1000 - (timedelta_days 6 + timedelta_hours 23)),
          ar_businesses_found = Some 50, ar_completed = Some 1,
          ar_quality_score = Some 80 \<rparr>], area_seq = 1 \<rparr>"
        "ascii ''cafes''" "ascii ''Praha''" "ascii ''Praha 1''" "ascii ''kavarna''" 1000
        "\<lparr> ar_id = 1, ar_niche = ascii ''cafes'', ar_city = ascii ''Praha'',
          ar_area = ascii ''Praha 1'', ar_keyword = ascii ''kavarna'',
          ar_last_scraped_at = Some (1000 - (timedelta_days 6 + timedelta_hours 23)),
          ar_businesses_found = Some 50, ar_completed = Some 1,
          ar_quality_score = Some 80 \<rparr>" 50]
  by (simp add: select_area_def same_area_def)

text \<open>
  C3. \<open>mark_area_scraped\<close> stores the quality score of the step function
  (\<open>\<ge> 100 \<rightarrow> 100\<close>, \<open>\<ge> 50 \<rightarrow> 80\<close>, \<open>\<ge> 20 \<rightarrow> 50\<close>, \<open>\<ge> 10 \<rightarrow> 30\<close>, else 10) and
  \<open>completed = (count \<ge> 50)\<close>; afterwards the table holds exactly one row for the key
  (the prior row is replaced) and the rows of other keys are those it held before. With
  count 12 the stored row has quality score 30 and \<open>completed = 0\<close>, and
  \<open>is_area_scraped\<close> on that key returns False at any time.
\<close>

theorem mark_area_scraped_replaces:
  "(\<exists>r. select_area (mark_area_scraped db n c a k cnt ts) n c a k = Some r
      \<and> ar_businesses_found r = Some cnt
      \<and> ar_last_scraped_at r = Some ts
      \<and> ar_completed r = Some (if cnt \<ge> 50 then 1 else 0)
      \<and> ar_quality_score r =
          Some (if cnt \<ge> 100 then 100 else if cnt \<ge> 50 then 80
                else if cnt \<ge> 20 then 50 else if cnt \<ge> 10 then 30 else 10))
   \<and> length (filter (same_area n c a k)
        (area_progress (mark_area_scraped db n c a k cnt ts))) = 1
   \<and> filter (\<lambda>r. \<not> same_area n c a k r) (area_progress (mark_area_scraped db n c a k cnt ts))
       = filter (\<lambda>r. \<not> same_area n c a k r) (area_progress db)
   \<and> (\<exists>r. select_area (mark_area_scraped db n c a k 12 ts) n c a k = Some r
         \<and> ar_quality_score r = Some 30 \<and> ar_completed r = Some 0)
   \<and> is_area_scraped (mark_area_scraped db n c a k 12 ts) n c a k now = Inr False"
proof -
  have one: "length (filter (same_area n c a k)
        (area_progress (mark_area_scraped db n c a k cnt ts))) = 1"
    by (simp add: mark_area_scraped_def Let_def same_area_def)
  have others: "filter (\<lambda>r. \<not> same_area n c a k r)
        (area_progress (mark_area_scraped db n c a k cnt ts))
       = filter (\<lambda>r. \<not> same_area n c a k r) (area_progress db)"
    by (simp add: mark_area_scraped_def Let_def same_area_def)
  have low: "is_area_scraped (mark_area_scraped db n c a k 12 ts) n c a k now = Inr False"
    by (simp add: is_area_scraped_def select_area_mark)
  show ?thesis
    using one others low
    by (simp add: select_area_mark calculate_scrape_quality_def)
qed

theorem mark_area_scraped_replaces_witness:
  "is_area_scraped
     (mark_area_scraped
        (mark_area_scraped \<lparr> area_progress = [], area_seq = 0 \<rparr>
           (ascii ''cafes'') (ascii ''Praha'') (ascii ''Praha 1'') (ascii ''kavarna'') 120 5)
        (ascii ''cafes'') (ascii ''Praha'') (ascii ''Praha 1'') (ascii ''kavarna'') 12 7)
     (ascii ''cafes'') (ascii ''Praha'') (ascii ''Praha 1'') (ascii ''kavarna'') 8 = Inr False
   \<and> length (filter (same_area (ascii ''cafes'') (ascii ''Praha'') (ascii ''Praha 1'') (ascii ''kavarna''))
        (area_progress (mark_area_scraped
           (mark_area_scraped \<lparr> area_progress = [], area_seq = 0 \<rparr>
              (ascii ''cafes'') (ascii ''Praha'') (ascii ''Praha 1'') (ascii ''kavarna'') 120 5)
           (ascii ''cafes'') (ascii ''Praha'') (ascii ''Praha 1'') (ascii ''kavarna'') 12 7))) = 1"
  using mark_area_scraped_replaces
    [of "mark_area_scraped \<lparr> area_progress = [], area_seq = 0 \<rparr>
           (ascii ''cafes'') (ascii ''Praha'') (ascii ''Praha 1'') (ascii ''kavarna'') 120 5"
        "ascii ''cafes''" "ascii ''Praha''" "ascii ''Praha 1''" "ascii ''kavarna''" 12 7 8]
  by simp

section \<open>Properties of the businesses table\<close>

lemma py_replace_Nil: "py_replace old new [] = (if old = [] then new else [])"
  by (simp add: py_replace.simps)

lemma py_replace_Cons:
  "py_replace (x # xs) new (c # cs) =
     (if prefix (x # xs) (c # cs) then new @ py_replace (x # xs) new (drop (length xs) cs)
      else c # py_replace (x # xs) new cs)"
  by (subst py_replace.simps) simp

lemmas normalize_eval = normalize_name_def normalize_str_def ascii_def py_lower_def
  lower_char_def py_replace_Nil py_replace_Cons kavarna_def cafe_acute_def py_split_def
  is_space_def py_strip_def

lemmas add_business_eval = add_business_def business_exists_def lookup_by_name_def
  bind_fields_def bind_text_def bind_real_def py_get_def update_row_def coalesce_def
  insert_row_def address_matches_def select_business_def

lemma find_map_id:
  "(\<And>r. b_id (f r) = b_id r) \<Longrightarrow>
   find (\<lambda>r. b_id r = i) (map (\<lambda>r. if b_id r = i then f r else r) rows)
     = map_option f (find (\<lambda>r. b_id r = i) rows)"
  by (induction rows) auto

text \<open>
  When \<open>business_exists\<close> finds the id \<open>i\<close>, \<open>add_business\<close> returns \<open>i\<close> and the row
  of \<open>i\<close> is the old row after the UPDATE.
\<close>

lemma add_business_updates:
  assumes "business_exists db (py_get b ''business_name'' (PStr []))
             (py_get b ''address'' PNone) (py_get b ''google_place_id'' PNone) = Inr (Some i)"
    and "i \<noteq> 0"
    and "add_business db b ts = Inr (db', j)"
  shows "j = i \<and> select_business db' i = map_option (update_row b ts) (select_business db i)"
proof -
  from assms have "j = i"
    and db': "businesses db' =
                map (\<lambda>r. if b_id r = i then update_row b ts r else r) (businesses db)"
    by (auto simp: add_business_def split: sum.splits if_splits)
  have "b_id (update_row b ts r) = b_id r" for r
    by (simp add: update_row_def)
  then show ?thesis
    using \<open>j = i\<close> db' by (simp add: select_business_def find_map_id)
qed

text \<open>
  C2, as the code has it. The claim as stated fails: an incoming record with a different
  non-null phone replaces the stored phone.
\<close>

theorem add_business_overwrites_counterexample:
  "b_phone luna_row = PStr (ascii ''+420111111111'')
   \<and> add_business luna_db luna_new_phone 9 =
       Inr (\<lparr> businesses = [luna_row \<lparr> b_phone := PStr (ascii ''+420222222222''),
                                        b_last_updated_at := 9, b_scrape_count := Some 2 \<rparr>],
              business_seq = 1 \<rparr>, 1)"
  by (simp add: luna_db_def luna_row_def luna_new_phone_def add_business_eval normalize_eval)

text \<open>
  C2 (amended). When \<open>add_business\<close> updates the existing row, each mergeable field
  (address, city, postal\_code, phone, email, website, instagram, facebook,
  google\_rating, notes) keeps its stored value if the incoming value is \<open>None\<close> or
  absent, and takes the incoming value otherwise.
\<close>

theorem add_business_merge_fields:
  assumes "business_exists db (py_get b ''business_name'' (PStr []))
             (py_get b ''address'' PNone) (py_get b ''google_place_id'' PNone) = Inr (Some i)"
    and "i \<noteq> 0"
    and "add_business db b ts = Inr (db', j)"
    and "select_business db i = Some r"
  shows "j = i \<and> (\<exists>r'. select_business db' i = Some r'
    \<and> b_address r' = (if py_get b ''address'' PNone = PNone then b_address r
                       else py_get b ''address'' PNone)
    \<and> b_city r' = (if py_get b ''city'' PNone = PNone then b_city r
                    else py_get b ''city'' PNone)
    \<and> b_postal_code r' = (if py_get b ''postal_code'' PNone = PNone then b_postal_code r
                           else py_get b ''postal_code'' PNone)
    \<and> b_phone r' = (if py_get b ''phone'' PNone = PNone then b_phone r
                     else py_get b ''phone'' PNone)
    \<and> b_email r' = (if py_get b ''email'' PNone = PNone then b_email r
                     else py_get b ''email'' PNone)
    \<and> b_website r' = (if py_get b ''website'' PNone = PNone then b_website r
                       else py_get b ''website'' PNone)
    \<and> b_instagram r' = (if py_get b ''instagram'' PNone = PNone then b_instagram r
                         else py_get b ''instagram'' PNone)
    \<and> b_facebook r' = (if py_get b ''facebook'' PNone = PNone then b_facebook r
                        else py_get b ''facebook'' PNone)
    \<and> b_google_rating r' = (if py_get b ''google_rating'' PNone = PNone then b_google_rating r
                             else py_get b ''google_rating'' PNone)
    \<and> b_notes r' = (if py_get b ''notes'' PNone = PNone then b_notes r
                     else py_get b ''notes'' PNone))"
  using add_business_updates [OF assms(1-3)] assms(4)
  by (simp add: update_row_def coalesce_def)

theorem add_business_merge_fields_witness:
  "\<exists>r'. select_business
          \<lparr> businesses = [luna_row \<lparr> b_phone := PStr (ascii ''+420222222222''),
                                    b_last_updated_at := 9, b_scrape_count := Some 2 \<rparr>],
            business_seq = 1 \<rparr> 1 = Some r'
     \<and> b_phone r' = PStr (ascii ''+420222222222'') \<and> b_city r' = PStr (ascii ''Praha'')"
  using add_business_merge_fields [of luna_db luna_new_phone 1 9
      "\<lparr> businesses = [luna_row \<lparr> b_phone := PStr (ascii ''+420222222222''),
                                  b_last_updated_at := 9, b_scrape_count := Some 2 \<rparr>],
          business_seq = 1 \<rparr>" 1 luna_row]
  by (simp add: luna_db_def luna_row_def luna_new_phone_def add_business_eval normalize_eval)

text \<open>
  C8. For an existing row with phone \<open>+420111111111\<close>, the upsert of an incoming record
  whose phone is \<open>None\<close> (or absent) leaves the stored phone \<open>+420111111111\<close>.
\<close>

theorem add_business_none_keeps_phone:
  assumes "business_exists db (py_get b ''business_name'' (PStr []))
             (py_get b ''address'' PNone) (py_get b ''google_place_id'' PNone) = Inr (Some i)"
    and "i \<noteq> 0"
    and "add_business db b ts = Inr (db', j)"
    and "select_business db i = Some r"
    and "b_phone r = PStr (ascii ''+420111111111'')"
    and "py_get b ''phone'' PNone = PNone"
  shows "\<exists>r'. select_business db' j = Some r' \<and> b_phone r' = PStr (ascii ''+420111111111'')"
  using add_business_updates [OF assms(1-3)] assms(4-6)
  by (simp add: update_row_def coalesce_def)

theorem add_business_none_keeps_phone_witness:
  "add_business luna_db luna_no_phone 9 =
     Inr (\<lparr> businesses = [luna_row \<lparr> b_email := PStr (ascii ''info@luna.cz''),
                                      b_last_updated_at := 9, b_scrape_count := Some 2 \<rparr>],
            business_seq = 1 \<rparr>, 1)
   \<and> (\<exists>r'. select_business
          \<lparr> businesses = [luna_row \<lparr> b_email := PStr (ascii ''info@luna.cz''),
                                    b_last_updated_at := 9, b_scrape_count := Some 2 \<rparr>],
            business_seq = 1 \<rparr> 1 = Some r'
        \<and> b_phone r' = PStr (ascii ''+420111111111''))"
  using add_business_none_keeps_phone [of luna_db luna_no_phone 1 9
      "\<lparr> businesses = [luna_row \<lparr> b_email := PStr (ascii ''info@luna.cz''),
                                  b_last_updated_at := 9, b_scrape_count := Some 2 \<rparr>],
          business_seq = 1 \<rparr>" 1 luna_row]
  by (simp add: luna_db_def luna_row_def luna_no_phone_def add_business_eval normalize_eval)

text \<open>
  C9. An incoming empty string is not NULL: for an existing row with a non-empty phone,
  the upsert of a record with \<open>phone == ""\<close> stores the empty string, and the stored
  phone is kept only when the incoming phone is \<open>None\<close> (or equal to the stored one).
\<close>

theorem add_business_empty_string_overwrites:
  assumes "business_exists db (py_get b ''business_name'' (PStr []))
             (py_get b ''address'' PNone) (py_get b ''google_place_id'' PNone) = Inr (Some i)"
    and "i \<noteq> 0"
    and "add_business db b ts = Inr (db', j)"
    and "select_business db i = Some r"
    and "truthy (b_phone r)"
  shows "\<exists>r'. select_business db' j = Some r'
    \<and> (py_get b ''phone'' PNone = PStr [] \<longrightarrow> b_phone r' = PStr [] \<and> b_phone r' \<noteq> b_phone r)
    \<and> (b_phone r' = b_phone r \<longleftrightarrow>
          py_get b ''phone'' PNone = PNone \<or> py_get b ''phone'' PNone = b_phone r)"
  using add_business_updates [OF assms(1-3)] assms(4,5)
  by (cases "b_phone r") (auto simp: update_row_def coalesce_def)

theorem add_business_empty_string_overwrites_witness:
  "add_business luna_db luna_empty_phone 9 =
     Inr (\<lparr> businesses = [luna_row \<lparr> b_phone := PStr [],
                                      b_last_updated_at := 9, b_scrape_count := Some 2 \<rparr>],
            business_seq = 1 \<rparr>, 1)
   \<and> (\<exists>r'. select_business
          \<lparr> businesses = [luna_row \<lparr> b_phone := PStr [],
                                    b_last_updated_at := 9, b_scrape_count := Some 2 \<rparr>],
            business_seq = 1 \<rparr> 1 = Some r'
        \<and> b_phone r' = PStr [])"
  using add_business_empty_string_overwrites [of luna_db luna_empty_phone 1 9
      "\<lparr> businesses = [luna_row \<lparr> b_phone := PStr [],
                                  b_last_updated_at := 9, b_scrape_count := Some 2 \<rparr>],
          business_seq = 1 \<rparr>" 1 luna_row]
  by (simp add: luna_db_def luna_row_def luna_empty_phone_def add_business_eval normalize_eval)

section \<open>Properties of the Normalizer\<close>

lemma lower_char_uncased: "\<not> cased c \<Longrightarrow> lower_char c = [c]"
  by (simp add: cased_def lower_char_def)

lemma lower_char_image: "d \<in> set (lower_char c) \<Longrightarrow> \<not> cased d"
proof (cases "cased c")
  case False
  assume "d \<in> set (lower_char c)"
  then show ?thesis using False by (simp add: lower_char_uncased)
next
  case True
  assume d: "d \<in> set (lower_char c)"
  from True consider (a) "65 \<le> c" "c \<le> 90"
    | (b) "192 \<le> c" "c \<le> 222" "c \<noteq> 215"
    | (c) "c = 304"
    | (d) "256 \<le> c" "c \<le> 311" "even c" "c \<noteq> 304"
    | (d') "330 \<le> c" "c \<le> 375" "even c"
    | (e) "313 \<le> c" "c \<le> 328" "odd c"
    | (e') "377 \<le> c" "c \<le> 382" "odd c"
    | (f) "c = 376"
    unfolding cased_def by blast
  then show ?thesis
  proof cases
    case a
    then have "lower_char c = [c + 32]" by (simp add: lower_char_def)
    then show ?thesis using d a by (simp add: cased_def)
  next
    case b
    then have "lower_char c = [c + 32]" by (simp add: lower_char_def)
    then show ?thesis using d b by (simp add: cased_def)
  next
    case c
    then have "lower_char c = [105, 775]" by (simp add: lower_char_def)
    then show ?thesis using d by (auto simp: cased_def)
  next
    case d
    then have "lower_char c = [c + 1]" by (simp add: lower_char_def)
    then show ?thesis using \<open>d \<in> set (lower_char c)\<close> d by (auto simp: cased_def)
  next
    case d'
    then have "lower_char c = [c + 1]" by (simp add: lower_char_def)
    then show ?thesis using \<open>d \<in> set (lower_char c)\<close> d' by (auto simp: cased_def)
  next
    case e
    then have "lower_char c = [c + 1]" by (simp add: lower_char_def)
    then show ?thesis using d e by (simp add: cased_def)
  next
    case e'
    then have "lower_char c = [c + 1]" by (simp add: lower_char_def)
    then show ?thesis using d e' by (simp add: cased_def)
  next
    case f
    then have "lower_char c = [255]" by (simp add: lower_char_def)
    then show ?thesis using d by (simp add: cased_def)
  qed
qed

lemma lower_char_fixed: "d \<in> set (lower_char c) \<Longrightarrow> lower_char d = [d]"
  by (rule lower_char_uncased) (rule lower_char_image)

lemma lowered_py_lower: "lowered (py_lower s)"
  by (auto simp: lowered_def py_lower_def dest: lower_char_fixed)

lemma py_lower_lowered: "lowered s \<Longrightarrow> py_lower s = s"
  by (induction s) (auto simp: lowered_def py_lower_def)

lemma set_py_replace: "set (py_replace (x # xs) new s) \<subseteq> set s \<union> set new"
proof (induction s rule: length_induct)
  case (1 s)
  show ?case
  proof (cases s)
    case Nil
    then show ?thesis by (simp add: py_replace_Nil)
  next
    case (Cons c cs)
    have a: "set (py_replace (x # xs) new (drop (length xs) cs)) \<subseteq> set (drop (length xs) cs) \<union> set new"
      using 1 Cons by simp
    have b: "set (drop (length xs) cs) \<subseteq> set cs" by (rule set_drop_subset)
    have c: "set (py_replace (x # xs) new cs) \<subseteq> set cs \<union> set new"
      using 1 Cons by simp
    show ?thesis
      unfolding Cons py_replace_Cons using a b c by auto
  qed
qed

lemma py_replace_absent: "\<not> sublist (x # xs) s \<Longrightarrow> py_replace (x # xs) new s = s"
proof (induction s)
  case Nil
  then show ?case by (simp add: py_replace_Nil)
next
  case (Cons c cs)
  have nopre: "\<not> prefix (x # xs) (c # cs)" using Cons.prems prefix_imp_sublist by blast
  have "\<not> sublist (x # xs) cs" using Cons.prems by (simp add: sublist_Cons_right)
  then have ih: "py_replace (x # xs) new cs = cs" by (rule Cons.IH)
  show ?case unfolding py_replace_Cons using nopre ih by (simp only: if_False)
qed

lemma py_replace_char_gone: "a \<notin> set new \<Longrightarrow> a \<notin> set (py_replace [a] new s)"
  by (induction s) (auto simp: py_replace_Nil py_replace_Cons)

lemma split_from_wordlist:
  "\<forall>c\<in>set cur. \<not> is_space c \<Longrightarrow> wordlist (split_from cur s)"
proof (induction s arbitrary: cur)
  case Nil
  then show ?case by (simp add: wordlist_def)
next
  case (Cons a s)
  show ?case
  proof (cases "is_space a")
    case True
    have "wordlist (split_from [] s)" by (rule Cons.IH) simp
    then show ?thesis using True Cons.prems by (simp add: wordlist_def)
  next
    case False
    have "wordlist (split_from (cur @ [a]) s)" by (rule Cons.IH) (use False Cons.prems in auto)
    then show ?thesis using False by simp
  qed
qed

lemma set_split_from: "w \<in> set (split_from cur s) \<Longrightarrow> set w \<subseteq> set cur \<union> set s"
proof (induction s arbitrary: cur)
  case Nil
  then show ?case by (simp split: if_splits)
next
  case (Cons a s)
  show ?case
  proof (cases "is_space a")
    case True
    then have "w = cur \<or> w \<in> set (split_from [] s)"
      using Cons.prems by (simp split: if_splits)
    then show ?thesis using Cons.IH[of "[]"] by auto
  next
    case False
    then have "w \<in> set (split_from (cur @ [a]) s)" using Cons.prems by simp
    then show ?thesis using Cons.IH[of "cur @ [a]"] by auto
  qed
qed

lemma split_from_word:
  "\<forall>c\<in>set w. \<not> is_space c \<Longrightarrow> split_from cur (w @ rest) = split_from (cur @ w) rest"
  by (induction w arbitrary: cur) auto

lemma is_space_32: "is_space 32"
  by (simp add: is_space_def)

lemma split_join: "wordlist ws \<Longrightarrow> split_from [] (py_join [32] ws) = ws"
proof (induction ws)
  case Nil
  then show ?case by simp
next
  case (Cons w vs)
  have w: "\<forall>c\<in>set w. \<not> is_space c" "w \<noteq> []" using Cons.prems by (auto simp: wordlist_def)
  show ?case
  proof (cases vs)
    case Nil
    then show ?thesis using split_from_word[OF w(1), of "[]" "[]"] w(2) by simp
  next
    case (Cons v us)
    have "wordlist vs" using Cons.prems by (auto simp: wordlist_def)
    then have IH: "split_from [] (py_join [32] vs) = vs" by (rule Cons.IH)
    have "split_from [] (w @ 32 # py_join [32] vs) = split_from w (32 # py_join [32] vs)"
      using split_from_word[OF w(1), of "[]"] by simp
    also have "\<dots> = w # vs" using w(2) IH is_space_32 by simp
    finally show ?thesis using Cons by simp
  qed
qed

lemma set_py_join: "set (py_join sep ws) \<subseteq> \<Union> (set ` set ws) \<union> set sep"
  by (induction sep ws rule: py_join.induct) auto

lemma join_ends:
  "wordlist ws \<Longrightarrow> ws \<noteq> [] \<Longrightarrow>
   py_join [32] ws \<noteq> [] \<and> \<not> is_space (hd (py_join [32] ws)) \<and> \<not> is_space (last (py_join [32] ws))"
proof (induction ws)
  case Nil
  then show ?case by simp
next
  case (Cons w vs)
  have w: "w \<noteq> []" "\<not> is_space (hd w)" "\<not> is_space (last w)"
    using Cons.prems by (auto simp: wordlist_def)
  show ?case
  proof (cases vs)
    case Nil
    then show ?thesis using w by simp
  next
    case (Cons v us)
    have "wordlist vs" using Cons.prems by (auto simp: wordlist_def)
    then have "py_join [32] vs \<noteq> []" "\<not> is_space (last (py_join [32] vs))"
      using Cons.IH Cons by auto
    then show ?thesis using w Cons by simp
  qed
qed

lemma strip_join: "wordlist ws \<Longrightarrow> py_strip (py_join [32] ws) = py_join [32] ws"
proof (cases "ws = []")
  case True then show ?thesis by (simp add: py_strip_def)
next
  case False
  assume "wordlist ws"
  from join_ends[OF this False] have
    ne: "py_join [32] ws \<noteq> []" and h: "\<not> is_space (hd (py_join [32] ws))"
    and l: "\<not> is_space (last (py_join [32] ws))" by blast+
  have 1: "dropWhile is_space (py_join [32] ws) = py_join [32] ws"
    using ne h by (cases "py_join [32] ws") auto
  have 2: "dropWhile is_space (rev (py_join [32] ws)) = rev (py_join [32] ws)"
    using ne l by (cases "rev (py_join [32] ws)") (auto simp: last_rev hd_rev)
  show ?thesis by (simp add: py_strip_def 1 2)
qed

lemma set_py_replace_ne: "old \<noteq> [] \<Longrightarrow> set (py_replace old new s) \<subseteq> set s \<union> set new"
  by (cases old) (simp_all add: set_py_replace)

lemma py_replace_absent_ne: "old \<noteq> [] \<Longrightarrow> \<not> sublist old s \<Longrightarrow> py_replace old new s = s"
  by (cases old) (simp_all add: py_replace_absent)

lemma sublist_single: "sublist [a] s \<longleftrightarrow> a \<in> set s"
  by (induction s) (auto simp: sublist_Cons_right)

lemma tokens_ne:
  "ascii ''restaurace'' \<noteq> []" "ascii ''restaurant'' \<noteq> []" "kavarna \<noteq> []"
  "cafe_acute \<noteq> []" "ascii ''cafe'' \<noteq> []"
  by (simp_all add: ascii_def kavarna_def cafe_acute_def)

lemma set_py_replace_del: "old \<noteq> [] \<Longrightarrow> set (py_replace old [] s) \<subseteq> set s"
  using set_py_replace_ne[of old "[]" s] by simp

lemma normalize_str_shape:
  "\<exists>r. normalize_str x = py_join [32] (split_from [] r)
       \<and> set r \<subseteq> set (py_lower x) \<union> {32} \<and> 38 \<notin> set r \<and> 45 \<notin> set r"
proof -
  define t where "t = py_replace (ascii ''cafe'') []
     (py_replace cafe_acute [] (py_replace kavarna []
       (py_replace (ascii ''restaurant'') [] (py_replace (ascii ''restaurace'') [] (py_lower x)))))"
  define r where "r = py_replace [45] [32] (py_replace [38] [] t)"
  have wl: "wordlist (split_from [] r)" by (rule split_from_wordlist) simp
  have "normalize_str x = py_strip (py_join [32] (split_from [] r))"
    by (simp add: normalize_str_def Let_def r_def t_def py_split_def ascii_def)
  then have 1: "normalize_str x = py_join [32] (split_from [] r)"
    using strip_join[OF wl] by simp
  have "set t \<subseteq> set (py_lower x)"
    unfolding t_def
    by (rule subset_trans[OF set_py_replace_del[OF tokens_ne(5)]],
        rule subset_trans[OF set_py_replace_del[OF tokens_ne(4)]],
        rule subset_trans[OF set_py_replace_del[OF tokens_ne(3)]],
        rule subset_trans[OF set_py_replace_del[OF tokens_ne(2)]])
       (rule set_py_replace_del[OF tokens_ne(1)])
  moreover have "set (py_replace [38] [] t) \<subseteq> set t"
    using set_py_replace[of 38 "[]" "[]" t] by simp
  moreover have a: "set r \<subseteq> set (py_replace [38] [] t) \<union> {32}"
    unfolding r_def using set_py_replace[of 45 "[]" "[32]"] by simp
  ultimately have 2: "set r \<subseteq> set (py_lower x) \<union> {32}" by blast
  have "38 \<notin> set (py_replace [38] [] t)" by (rule py_replace_char_gone) simp
  then have 3: "38 \<notin> set r" using a by auto
  have 4: "45 \<notin> set r" unfolding r_def by (rule py_replace_char_gone) simp
  show ?thesis using 1 2 3 4 by blast
qed

lemma normalize_str_fixed:
  assumes "\<forall>tok\<in>set descriptor_tokens. \<not> sublist tok (normalize_str x)"
  shows "normalize_str (normalize_str x) = normalize_str x"
proof -
  obtain r where y: "normalize_str x = py_join [32] (split_from [] r)"
    and r: "set r \<subseteq> set (py_lower x) \<union> {32}" "38 \<notin> set r" "45 \<notin> set r"
    using normalize_str_shape by blast
  define y where "y = normalize_str x"
  have wl: "wordlist (split_from [] r)" by (rule split_from_wordlist) simp
  have sy: "set y \<subseteq> set r \<union> {32}"
  proof
    fix c assume "c \<in> set y"
    then have "c \<in> \<Union> (set ` set (split_from [] r)) \<union> set [32]"
      using set_py_join[of "[32]" "split_from [] r"] y y_def by auto
    then show "c \<in> set r \<union> {32}" using set_split_from[of _ "[]" r] by auto
  qed
  have "lower_char 32 = [32]" by (simp add: lower_char_def)
  then have "lowered y"
    using sy r(1) lowered_py_lower[of x] unfolding lowered_def by blast
  then have low: "py_lower y = y" by (rule py_lower_lowered)
  have tok: "\<not> sublist (ascii ''restaurace'') y" "\<not> sublist (ascii ''restaurant'') y"
    "\<not> sublist kavarna y" "\<not> sublist cafe_acute y" "\<not> sublist (ascii ''cafe'') y"
    using assms by (simp_all add: descriptor_tokens_def y_def)
  have amp: "\<not> sublist [38] y" and dash: "\<not> sublist [45] y"
    using sy r(2,3) by (auto simp: sublist_single)
  have t: "py_replace (ascii ''cafe'') []
     (py_replace cafe_acute [] (py_replace kavarna []
       (py_replace (ascii ''restaurant'') [] (py_replace (ascii ''restaurace'') [] y)))) = y"
    using tok by (simp add: py_replace_absent_ne tokens_ne)
  have r': "py_replace [45] [32] (py_replace [38] [] y) = y"
    using amp dash by (simp add: py_replace_absent)
  have sp: "split_from [] y = split_from [] r"
    unfolding y_def y by (rule split_join[OF wl])
  have "normalize_str y = py_strip (py_join [32] (split_from [] y))"
    unfolding normalize_str_def Let_def low py_split_def
    using t r' by (simp add: ascii_def[of "''-''"] ascii_def[of "'' ''"] ascii_def[of "''&''"])
  also have "\<dots> = py_join [32] (split_from [] r)"
    unfolding sp by (rule strip_join[OF wl])
  finally show ?thesis using y y_def by simp
qed

text \<open>
  C6, as the code has it. The claim as stated fails: removing \<open>cafe\<close> from
  \<open>cacafefe\<close> leaves \<open>cafe\<close>, which a second application removes.
\<close>

theorem normalize_name_not_idempotent_counterexample:
  "normalize_name (PStr (ascii ''cacafefe'')) = Inr (ascii ''cafe'')
   \<and> normalize_name (PStr (ascii ''cafe'')) = Inr []"
  by (simp add: normalize_eval)

text \<open>
  C6 (amended). If the result of \<open>normalize_name\<close> contains none of the five descriptor
  tokens (restaurace, restaurant, kav(U+00E1)rna, caf(U+00E9), cafe), applying \<open>normalize_name\<close> to
  it returns it unchanged.
\<close>

theorem normalize_name_idempotent_without_tokens:
  assumes "normalize_name x = Inr y"
    and "\<forall>tok\<in>set descriptor_tokens. \<not> sublist tok y"
  shows "normalize_name (PStr y) = Inr y"
proof (cases "truthy x")
  case False
  then have "y = []" using assms(1) by (simp add: normalize_name_def)
  then show ?thesis by (simp add: normalize_name_def)
next
  case True
  then obtain s where "x = PStr s" "y = normalize_str s"
    using assms(1) by (cases x) (auto simp: normalize_name_def)
  then have "normalize_str y = y" using normalize_str_fixed assms(2) by simp
  then show ?thesis by (simp add: normalize_name_def)
qed

theorem normalize_name_idempotent_without_tokens_witness:
  "normalize_name (PStr (ascii ''Test Restaurant Praha'')) = Inr (ascii ''test praha'')
   \<and> normalize_name (PStr (ascii ''test praha'')) = Inr (ascii ''test praha'')"
  using normalize_name_idempotent_without_tokens
    [of "PStr (ascii ''Test Restaurant Praha'')" "ascii ''test praha''"]
  by (simp add: normalize_eval descriptor_tokens_def sublist_Cons_right)

section \<open>Properties of the Prioritizer\<close>

lemma bind_err_Inr: "bind_err m f = Inr y \<longleftrightarrow> (\<exists>x. m = Inr x \<and> f x = Inr y)"
  by (cases m) (simp_all add: bind_err_def)

lemma bind_err_simps: "bind_err (Inr x) f = f x" "bind_err (Inl e) f = Inl e"
  by (simp_all add: bind_err_def)

lemma map_of_py_set: "map_of (py_set d k v) k' = (if k' = k then Some v else map_of d k')"
  by (induction d k v rule: py_set.induct) auto

lemma py_get_py_set: "py_get (py_set d k v) k' dflt = (if k' = k then v else py_get d k' dflt)"
  by (simp add: py_get_def map_of_py_set)

lemma calculate_priority_score_range:
  "calculate_priority_score cfg b = Inr (s, b') \<Longrightarrow> 0 \<le> s \<and> s \<le> 200"
  by (auto simp: calculate_priority_score_def bind_err_Inr)

lemma score_one_ok: "score_one cfg b = Inr b1 \<Longrightarrow> scored_ok b1"
  unfolding score_one_def bind_err_Inr scored_ok_def
  using calculate_priority_score_range by (fastforce simp: map_of_py_set)

lemma score_loop_ok:
  "score_loop cfg h rs = Inr h' \<Longrightarrow> r \<in> set rs \<or> (r < length h \<and> scored_ok (h ! r)) \<Longrightarrow>
   r < length h' \<and> scored_ok (h' ! r)"
proof (induction rs arbitrary: h)
  case Nil
  then show ?case by simp
next
  case (Cons a rs)
  from Cons.prems(1) obtain b where a: "a < length h" and b: "score_one cfg (h ! a) = Inr b"
    and rest: "score_loop cfg (h[a := b]) rs = Inr h'"
    by (auto simp: bind_err_Inr split: if_splits)
  have "r \<in> set rs \<or> (r < length (h[a := b]) \<and> scored_ok (h[a := b] ! r))"
    using Cons.prems(2) a score_one_ok[OF b] by (cases "r = a") auto
  then show ?case by (rule Cons.IH[OF rest])
qed

text \<open>
  C5. For every business of the list given to \<open>score_leads\<close>, the stored
  \<open>priority_score\<close> is an integer between 0 and 200 and the stored \<open>priority_category\<close>
  is IMMEDIATE for a score of at least 90, HIGH from 75, MEDIUM from 50 and LOW below
  50; the returned list holds the same businesses.
\<close>

theorem score_leads_bounds:
  assumes "score_leads cfg h rs = Inr (h', out)" and "r \<in> set rs"
  shows "set out = set rs \<and> (\<exists>s. map_of (h' ! r) ''priority_score'' = Some (PNum (of_int s))
     \<and> 0 \<le> s \<and> s \<le> 200
     \<and> map_of (h' ! r) ''priority_category'' =
         Some (PStr (if s \<ge> 90 then PRIORITY_IMMEDIATE else if s \<ge> 75 then PRIORITY_HIGH
                     else if s \<ge> 50 then PRIORITY_MEDIUM else PRIORITY_LOW)))"
proof -
  from assms(1) have loop: "score_loop cfg h rs = Inr h'"
    and out: "out = rev (sort_key (priority_key h') (rev rs))"
    by (auto simp: score_leads_def bind_err_Inr)
  have "scored_ok (h' ! r)" using score_loop_ok[OF loop] assms(2) by blast
  then show ?thesis using out by (auto simp: scored_ok_def get_priority_category_def)
qed

lemmas prioritizer_eval = score_leads_def score_one_def calculate_priority_score_def
  rule_website_def rule_email_def rule_social_def rule_rating_def rule_cz_def with_note_def
  add_note_def bind_err_def scoring_get_def default_scoring_def lt_num_def py_contains_def
  py_get_def get_priority_category_def priority_key_def

lemma ex: "score_leads default_scoring [lead0] [0] =
   Inr ([lead0 @ [(''notes'', PStr (ascii ''No website - High opportunity; No email found; No social media'')),
                  (''priority_score'', PNum 175),
                  (''priority_category'', PStr PRIORITY_IMMEDIATE)]], [0])"
  by (simp add: prioritizer_eval lead0_def ascii_def)

lemma signals_py_set:
  "k \<notin> set [''website'', ''website_quality_score'', ''email'', ''instagram'', ''facebook'',
             ''google_rating''] \<Longrightarrow> signals (py_set b k v) = signals b"
  by (auto simp: signals_def map_of_py_set)

lemma signals_py_get:
  assumes "signals c = signals b"
  shows "py_get c ''website'' d = py_get b ''website'' d"
    and "py_get c ''website_quality_score'' d = py_get b ''website_quality_score'' d"
    and "py_get c ''email'' d = py_get b ''email'' d"
    and "py_get c ''instagram'' d = py_get b ''instagram'' d"
    and "py_get c ''facebook'' d = py_get b ''facebook'' d"
    and "py_get c ''google_rating'' d = py_get b ''google_rating'' d"
  using assms by (simp_all add: signals_def py_get_def)

lemma with_note_first:
  assumes "with_note d text st = Inr st'"
  shows "fst st' = fst st + d \<and> signals (snd st') = signals (snd st)
     \<and> notes_of (snd st') = notes_after (notes_of (snd st)) [text]
     \<and> py_get (snd st') ''notes'' (PStr []) = PStr (notes_of (snd st'))"
proof (cases "py_get (snd st) ''notes'' (PStr [])")
  case PNone
  then show ?thesis using assms
    by (auto simp: with_note_def add_note_def bind_err_Inr notes_of_def signals_py_set py_get_py_set)
next
  case (PStr s)
  then show ?thesis using assms
    by (auto simp: with_note_def add_note_def bind_err_Inr notes_of_def signals_py_set py_get_py_set)
next
  case (PNum q)
  then show ?thesis using assms
    by (auto simp: with_note_def add_note_def bind_err_Inr notes_of_def signals_py_set py_get_py_set
        split: if_splits)
next
  case (PList l)
  then show ?thesis using assms
    by (auto simp: with_note_def add_note_def bind_err_Inr notes_of_def signals_py_set py_get_py_set
        split: if_splits)
qed

lemma with_note_second:
  assumes "py_get (snd su) ''notes'' (PStr []) = PStr n"
  shows "\<exists>su'. with_note d text su = Inr su' \<and> fst su' = fst su + d
     \<and> signals (snd su') = signals (snd su)
     \<and> notes_of (snd su') = notes_after (notes_of (snd su)) [text]
     \<and> py_get (snd su') ''notes'' (PStr []) = PStr (notes_of (snd su'))"
  using assms
  by (auto simp: with_note_def add_note_def bind_err_def notes_of_def signals_py_set py_get_py_set)

lemma triggered_notes_parts:
  "triggered_notes b = website_notes b @ email_notes b @ social_notes b @ rating_notes b"
  by (simp add: triggered_notes_def website_notes_def email_notes_def social_notes_def
      rating_notes_def)

lemma rule_website_step:
  assumes "rule_website cfg st = Inr st'" and "signals (snd su) = signals (snd st)"
  shows "same_step (website_notes (snd st)) st st' su (rule_website cfg su)"
  using assms(1) signals_py_get(1,2)[OF assms(2)]
  by (auto simp: rule_website_def same_step_def website_notes_def bind_err_Inr bind_err_simps lt_num_def
      Let_def split: if_splits pyval.splits)

lemma rule_email_step:
  assumes "rule_email cfg st = Inr st'" and "signals (snd su) = signals (snd st)"
  shows "same_step (email_notes (snd st)) st st' su (rule_email cfg su)"
  using assms(1) signals_py_get(3)[OF assms(2)]
  by (auto simp: rule_email_def same_step_def email_notes_def bind_err_Inr bind_err_simps split: if_splits)

lemma rule_social_step:
  assumes "rule_social cfg st = Inr st'" and "signals (snd su) = signals (snd st)"
  shows "same_step (social_notes (snd st)) st st' su (rule_social cfg su)"
  using assms(1) signals_py_get(4,5)[OF assms(2)]
  by (auto simp: rule_social_def same_step_def social_notes_def bind_err_Inr bind_err_simps split: if_splits)

lemma rule_rating_step:
  assumes "rule_rating st = Inr st'" and "signals (snd su) = signals (snd st)"
  shows "same_step (rating_notes (snd st)) st st' su (rule_rating su)"
  using assms(1) signals_py_get(6)[OF assms(2)]
  by (auto simp: rule_rating_def same_step_def rating_notes_def bind_err_Inr bind_err_simps lt_num_def
      Let_def split: if_splits pyval.splits)

lemma rule_cz_step:
  assumes "rule_cz st = Inr st'" and "signals (snd su) = signals (snd st)"
  shows "snd st' = snd st \<and> rule_cz su = Inr (fst su + (fst st' - fst st), snd su)"
proof -
  let ?w = "py_get (snd st) ''website'' (PStr [])"
  have w: "py_get (snd su) ''website'' (PStr []) = ?w"
    by (rule signals_py_get(1)[OF assms(2)])
  show ?thesis
  proof (cases "truthy ?w")
    case False
    then show ?thesis using assms(1) w by (simp add: rule_cz_def)
  next
    case True
    then obtain cz where cz: "py_contains (ascii ''.cz'') ?w = Inr cz"
      and st': "st' = (if cz then (fst st + 5, snd st) else st)"
      using assms(1) by (auto simp: rule_cz_def bind_err_Inr split: if_splits)
    show ?thesis using True w cz st' by (simp add: rule_cz_def bind_err_simps)
  qed
qed

lemma same_step_first:
  assumes "same_step ns st st' su res"
  shows "signals (snd st') = signals (snd st)
     \<and> notes_of (snd st') = notes_after (notes_of (snd st)) ns
     \<and> (ns = [] \<longrightarrow> st' = st)
     \<and> (ns \<noteq> [] \<longrightarrow> py_get (snd st') ''notes'' (PStr []) = PStr (notes_of (snd st')))"
  using assms with_note_first unfolding same_step_def by fastforce

lemma same_step_second:
  assumes "same_step ns st st' su res"
    and "ns = [] \<or> (\<exists>n. py_get (snd su) ''notes'' (PStr []) = PStr n)"
  shows "\<exists>su'. res = Inr su' \<and> follows ns st st' su su'"
proof (cases "ns = []")
  case True
  then show ?thesis using assms(1) by (auto simp: same_step_def follows_def)
next
  case False
  then obtain w tx where ns: "ns = [tx]" and 1: "with_note w tx st = Inr st'"
    and 2: "res = with_note w tx su"
    using assms(1) by (auto simp: same_step_def)
  from False assms(2) obtain n where n: "py_get (snd su) ''notes'' (PStr []) = PStr n" by blast
  from with_note_second[OF n, of w tx] obtain su' where
    su': "with_note w tx su = Inr su' \<and> fst su' = fst su + w
      \<and> signals (snd su') = signals (snd su)
      \<and> notes_of (snd su') = notes_after (notes_of (snd su)) [tx]
      \<and> py_get (snd su') ''notes'' (PStr []) = PStr (notes_of (snd su'))"
    by blast
  have "fst st' = fst st + w" using with_note_first[OF 1] by simp
  then have "follows ns st st' su su'" using su' ns by (simp add: follows_def)
  then show ?thesis using su' 2 by blast
qed

lemma notes_after_append: "notes_after s (xs @ ys) = notes_after (notes_after s xs) ys"
  by (induction xs arbitrary: s) auto

lemma notes_signals:
  assumes "signals x = signals y"
  shows "website_notes x = website_notes y" "email_notes x = email_notes y"
    "social_notes x = social_notes y" "rating_notes x = rating_notes y"
  using signals_py_get[OF assms]
  by (simp_all add: website_notes_def email_notes_def social_notes_def rating_notes_def)

lemma calculate_first:
  assumes "calculate_priority_score cfg b = Inr (s, b')"
  shows "signals b' = signals b \<and> notes_of b' = notes_after (notes_of b) (triggered_notes b)
       \<and> (triggered_notes b = [] \<longrightarrow> b' = b)
       \<and> (triggered_notes b \<noteq> [] \<longrightarrow> py_get b' ''notes'' (PStr []) = PStr (notes_of b'))"
proof -
  from assms(1) obtain st1 st2 st3 st4 st5 where
    r1: "rule_website cfg (0, b) = Inr st1" and r2: "rule_email cfg st1 = Inr st2"
    and r3: "rule_social cfg st2 = Inr st3" and r4: "rule_rating st3 = Inr st4"
    and r5: "rule_cz st4 = Inr st5"
    and s: "s = max 0 (min (fst st5) 200)" and b': "b' = snd st5"
    by (auto simp: calculate_priority_score_def bind_err_Inr)
  have parts: "triggered_notes b = website_notes b @ email_notes b @ social_notes b @ rating_notes b"
    by (rule triggered_notes_parts)
  have k1: "same_step (website_notes b) (0, b) st1 (0, b) (rule_website cfg (0, b))"
    using rule_website_step[OF r1, of "(0, b)"] by simp
  have f1: "signals (snd st1) = signals b"
    "notes_of (snd st1) = notes_after (notes_of b) (website_notes b)"
    "website_notes b = [] \<longrightarrow> st1 = (0, b)"
    "website_notes b \<noteq> [] \<longrightarrow> py_get (snd st1) ''notes'' (PStr []) = PStr (notes_of (snd st1))"
    using same_step_first[OF k1] by simp_all
  have k2: "same_step (email_notes b) st1 st2 st1 (rule_email cfg st1)"
    using rule_email_step[OF r2, of st1] notes_signals(2)[OF f1(1)] by simp
  have f2: "signals (snd st2) = signals b"
    "notes_of (snd st2) = notes_after (notes_of (snd st1)) (email_notes b)"
    "email_notes b = [] \<longrightarrow> st2 = st1"
    "email_notes b \<noteq> [] \<longrightarrow> py_get (snd st2) ''notes'' (PStr []) = PStr (notes_of (snd st2))"
    using same_step_first[OF k2] f1(1) by simp_all
  have k3: "same_step (social_notes b) st2 st3 st2 (rule_social cfg st2)"
    using rule_social_step[OF r3, of st2] notes_signals(3)[OF f2(1)] by simp
  have f3: "signals (snd st3) = signals b"
    "notes_of (snd st3) = notes_after (notes_of (snd st2)) (social_notes b)"
    "social_notes b = [] \<longrightarrow> st3 = st2"
    "social_notes b \<noteq> [] \<longrightarrow> py_get (snd st3) ''notes'' (PStr []) = PStr (notes_of (snd st3))"
    using same_step_first[OF k3] f2(1) by simp_all
  have k4: "same_step (rating_notes b) st3 st4 st3 (rule_rating st3)"
    using rule_rating_step[OF r4, of st3] notes_signals(4)[OF f3(1)] by simp
  have f4: "signals (snd st4) = signals b"
    "notes_of (snd st4) = notes_after (notes_of (snd st3)) (rating_notes b)"
    "rating_notes b = [] \<longrightarrow> st4 = st3"
    "rating_notes b \<noteq> [] \<longrightarrow> py_get (snd st4) ''notes'' (PStr []) = PStr (notes_of (snd st4))"
    using same_step_first[OF k4] f3(1) by simp_all
  have c5: "snd st5 = snd st4"
    using rule_cz_step[OF r5, of st4] by simp
  have n1: "notes_of b' = notes_after (notes_of b) (triggered_notes b)"
    using f1(2) f2(2) f3(2) f4(2) c5 b' by (simp add: parts notes_after_append)
  have e1: "triggered_notes b = [] \<longrightarrow> b' = b"
    using f1(3) f2(3) f3(3) f4(3) c5 b' by (auto simp: parts)
  have p: "triggered_notes b \<noteq> [] \<longrightarrow> py_get b' ''notes'' (PStr []) = PStr (notes_of b')"
  proof
    assume ne: "triggered_notes b \<noteq> []"
    show "py_get b' ''notes'' (PStr []) = PStr (notes_of b')"
    proof (cases "rating_notes b = []")
      case False
      then show ?thesis using f4(4) c5 b' by simp
    next
      case r: True
      show ?thesis
      proof (cases "social_notes b = []")
        case False
        then show ?thesis using f3(4) f4(3) r c5 b' by simp
      next
        case so: True
        show ?thesis
        proof (cases "email_notes b = []")
          case False
          then show ?thesis using f2(4) f3(3) f4(3) r so c5 b' by simp
        next
          case True
          then have "website_notes b \<noteq> []" using ne r so parts by simp
          then show ?thesis using f1(4) f2(3) f3(3) f4(3) r so True c5 b' by simp
        qed
      qed
    qed
  qed
  show ?thesis using f4(1) c5 b' n1 e1 p by simp
qed

lemma calculate_second:
  assumes "calculate_priority_score cfg b = Inr (s, b')"
    and "signals c = signals b"
    and "triggered_notes b = [] \<or> (\<exists>n. py_get c ''notes'' (PStr []) = PStr n)"
  shows "\<exists>c'. calculate_priority_score cfg c = Inr (s, c') \<and> signals c' = signals c
             \<and> notes_of c' = notes_after (notes_of c) (triggered_notes b)
             \<and> (triggered_notes b = [] \<longrightarrow> c' = c)"
proof -
  from assms(1) obtain st1 st2 st3 st4 st5 where
    r1: "rule_website cfg (0, b) = Inr st1" and r2: "rule_email cfg st1 = Inr st2"
    and r3: "rule_social cfg st2 = Inr st3" and r4: "rule_rating st3 = Inr st4"
    and r5: "rule_cz st4 = Inr st5"
    and s: "s = max 0 (min (fst st5) 200)" and b': "b' = snd st5"
    by (auto simp: calculate_priority_score_def bind_err_Inr)
  have parts: "triggered_notes b = website_notes b @ email_notes b @ social_notes b @ rating_notes b"
    by (rule triggered_notes_parts)
  \<comment> \<open>website\<close>
  have k1: "same_step (website_notes b) (0, b) st1 (0, c) (rule_website cfg (0, c))"
    using rule_website_step[OF r1, of "(0, c)"] assms(2) by simp
  have f1: "signals (snd st1) = signals b"
    "notes_of (snd st1) = notes_after (notes_of b) (website_notes b)"
    "website_notes b = [] \<longrightarrow> st1 = (0, b)"
    "website_notes b \<noteq> [] \<longrightarrow> py_get (snd st1) ''notes'' (PStr []) = PStr (notes_of (snd st1))"
    using same_step_first[OF k1] by simp_all
  have h1: "website_notes b = [] \<or> (\<exists>n. py_get (snd (0::int, c)) ''notes'' (PStr []) = PStr n)"
    using assms(3) parts by auto
  from same_step_second[OF k1 h1] obtain su1 where
    g1: "rule_website cfg (0, c) = Inr su1" and w1: "follows (website_notes b) (0, b) st1 (0, c) su1"
    by blast
  have g1: "rule_website cfg (0, c) = Inr su1" "fst su1 = fst st1" "signals (snd su1) = signals c"
      "notes_of (snd su1) = notes_after (notes_of c) (website_notes b)"
      "website_notes b = [] \<longrightarrow> su1 = (0, c)"
      "(\<exists>n. py_get c ''notes'' (PStr []) = PStr n)
        \<longrightarrow> (\<exists>n. py_get (snd su1) ''notes'' (PStr []) = PStr n)"
    using g1 w1 by (simp_all add: follows_def)
  \<comment> \<open>email\<close>
  have k2: "same_step (email_notes b) st1 st2 su1 (rule_email cfg su1)"
    using rule_email_step[OF r2, of su1] g1(3) f1(1) assms(2) notes_signals(2)[OF f1(1)] by simp
  have f2: "signals (snd st2) = signals b"
    "notes_of (snd st2) = notes_after (notes_of (snd st1)) (email_notes b)"
    "email_notes b = [] \<longrightarrow> st2 = st1"
    "email_notes b \<noteq> [] \<longrightarrow> py_get (snd st2) ''notes'' (PStr []) = PStr (notes_of (snd st2))"
    using same_step_first[OF k2] f1(1) by simp_all
  have h2: "email_notes b = [] \<or> (\<exists>n. py_get (snd su1) ''notes'' (PStr []) = PStr n)"
    using assms(3) parts g1(6) by auto
  from same_step_second[OF k2 h2] obtain su2 where
    g2: "rule_email cfg su1 = Inr su2" and w2: "follows (email_notes b) st1 st2 su1 su2"
    by blast
  have g2: "rule_email cfg su1 = Inr su2" "fst su2 - fst su1 = fst st2 - fst st1"
      "signals (snd su2) = signals c"
      "notes_of (snd su2) = notes_after (notes_of (snd su1)) (email_notes b)"
      "email_notes b = [] \<longrightarrow> su2 = su1"
      "(\<exists>n. py_get (snd su1) ''notes'' (PStr []) = PStr n)
        \<longrightarrow> (\<exists>n. py_get (snd su2) ''notes'' (PStr []) = PStr n)"
    using g2 w2 g1(3) by (simp_all add: follows_def)
  \<comment> \<open>social\<close>
  have k3: "same_step (social_notes b) st2 st3 su2 (rule_social cfg su2)"
    using rule_social_step[OF r3, of su2] g2(3) f2(1) assms(2) notes_signals(3)[OF f2(1)] by simp
  have f3: "signals (snd st3) = signals b"
    "notes_of (snd st3) = notes_after (notes_of (snd st2)) (social_notes b)"
    "social_notes b = [] \<longrightarrow> st3 = st2"
    "social_notes b \<noteq> [] \<longrightarrow> py_get (snd st3) ''notes'' (PStr []) = PStr (notes_of (snd st3))"
    using same_step_first[OF k3] f2(1) by simp_all
  have h3: "social_notes b = [] \<or> (\<exists>n. py_get (snd su2) ''notes'' (PStr []) = PStr n)"
    using assms(3) parts g1(6) g2(6) by auto
  from same_step_second[OF k3 h3] obtain su3 where
    g3: "rule_social cfg su2 = Inr su3" and w3: "follows (social_notes b) st2 st3 su2 su3"
    by blast
  have g3: "rule_social cfg su2 = Inr su3" "fst su3 - fst su2 = fst st3 - fst st2"
      "signals (snd su3) = signals c"
      "notes_of (snd su3) = notes_after (notes_of (snd su2)) (social_notes b)"
      "social_notes b = [] \<longrightarrow> su3 = su2"
      "(\<exists>n. py_get (snd su2) ''notes'' (PStr []) = PStr n)
        \<longrightarrow> (\<exists>n. py_get (snd su3) ''notes'' (PStr []) = PStr n)"
    using g3 w3 g2(3) by (simp_all add: follows_def)
  \<comment> \<open>rating\<close>
  have k4: "same_step (rating_notes b) st3 st4 su3 (rule_rating su3)"
    using rule_rating_step[OF r4, of su3] g3(3) f3(1) assms(2) notes_signals(4)[OF f3(1)] by simp
  have f4: "signals (snd st4) = signals b"
    "notes_of (snd st4) = notes_after (notes_of (snd st3)) (rating_notes b)"
    "rating_notes b = [] \<longrightarrow> st4 = st3"
    "rating_notes b \<noteq> [] \<longrightarrow> py_get (snd st4) ''notes'' (PStr []) = PStr (notes_of (snd st4))"
    using same_step_first[OF k4] f3(1) by simp_all
  have h4: "rating_notes b = [] \<or> (\<exists>n. py_get (snd su3) ''notes'' (PStr []) = PStr n)"
    using assms(3) parts g1(6) g2(6) g3(6) by auto
  from same_step_second[OF k4 h4] obtain su4 where
    g4: "rule_rating su3 = Inr su4" and w4: "follows (rating_notes b) st3 st4 su3 su4"
    by blast
  have g4: "rule_rating su3 = Inr su4" "fst su4 - fst su3 = fst st4 - fst st3"
      "signals (snd su4) = signals c"
      "notes_of (snd su4) = notes_after (notes_of (snd su3)) (rating_notes b)"
      "rating_notes b = [] \<longrightarrow> su4 = su3"
    using g4 w4 g3(3) by (simp_all add: follows_def)
  \<comment> \<open>the bonus and the clamp\<close>
  have c5: "snd st5 = snd st4"
    "rule_cz su4 = Inr (fst su4 + (fst st5 - fst st4), snd su4)"
    using rule_cz_step[OF r5, of su4] g4(3) f4(1) assms(2) by simp_all
  have fs: "fst su4 = fst st4" using g1(2) g2(2) g3(2) g4(2) by simp
  have second: "calculate_priority_score cfg c = Inr (s, snd su4)"
    using g1(1) g2(1) g3(1) g4(1) c5(2) fs s
    by (simp add: calculate_priority_score_def bind_err_simps)
  have n2: "notes_of (snd su4) = notes_after (notes_of c) (triggered_notes b)"
    using g1(4) g2(4) g3(4) g4(4) by (simp add: parts notes_after_append)
  have e2: "triggered_notes b = [] \<longrightarrow> snd su4 = c"
    using g1(5) g2(5) g3(5) g4(5) by (auto simp: parts)
  show ?thesis using second g4(3) n2 e2 by blast
qed

lemma triggered_notes_signals: "signals x = signals y \<Longrightarrow> triggered_notes x = triggered_notes y"
  using notes_signals[of x y] by (simp add: triggered_notes_parts)

lemma notes_after_nonempty: "s \<noteq> [] \<Longrightarrow> notes_after s ns \<noteq> []"
  by (induction ns arbitrary: s) auto

lemma notes_after_join:
  "s \<noteq> [] \<Longrightarrow> notes_after s ns = s @ concat (map (\<lambda>n. ascii ''; '' @ n) ns)"
  by (induction ns arbitrary: s) auto

lemma py_join_concat: "py_join sep (n # ns) = n @ concat (map (\<lambda>m. sep @ m) ns)"
  by (induction ns arbitrary: n) auto

lemma notes_after_py_join:
  "s \<noteq> [] \<Longrightarrow> ns \<noteq> [] \<Longrightarrow> notes_after s ns = s @ ascii ''; '' @ py_join (ascii ''; '') ns"
  by (cases ns) (simp_all add: notes_after_join py_join_concat)

lemma triggered_notes_texts: "n \<in> set (triggered_notes b) \<Longrightarrow> n \<noteq> []"
  by (auto simp: triggered_notes_def ascii_def split: if_splits pyval.splits)

lemma notes_after_triggered:
  "triggered_notes b \<noteq> [] \<Longrightarrow> notes_after s (triggered_notes b) \<noteq> []"
proof -
  assume "triggered_notes b \<noteq> []"
  then obtain n ns where t: "triggered_notes b = n # ns" by (cases "triggered_notes b") auto
  then have "n \<noteq> []" using triggered_notes_texts[of n b] by simp
  then show ?thesis using t by (simp add: notes_after_nonempty)
qed

lemma score_one_twice:
  assumes "score_one cfg b = Inr b1"
  shows "\<exists>b2. score_one cfg b1 = Inr b2
     \<and> map_of b1 ''priority_score'' \<noteq> None
     \<and> map_of b2 ''priority_score'' = map_of b1 ''priority_score''
     \<and> map_of b2 ''priority_category'' = map_of b1 ''priority_category''
     \<and> notes_of b1 = notes_after (notes_of b) (triggered_notes b)
     \<and> notes_of b2 = notes_after (notes_of b1) (triggered_notes b)
     \<and> (triggered_notes b = [] \<longrightarrow> py_get b2 ''notes'' PNone = py_get b ''notes'' PNone)
     \<and> (triggered_notes b \<noteq> [] \<longrightarrow>
          py_get b1 ''notes'' (PStr []) = PStr (notes_of b1)
          \<and> py_get b2 ''notes'' (PStr []) = PStr (notes_of b2))"
proof -
  from assms obtain s b' where c: "calculate_priority_score cfg b = Inr (s, b')"
    and b1: "b1 = py_set (py_set b' ''priority_score'' (PNum (of_int s)))
                    ''priority_category'' (PStr (get_priority_category s))"
    by (auto simp: score_one_def bind_err_Inr)
  have sig1: "signals b1 = signals b'" by (simp add: b1 signals_def map_of_py_set)
  have get1: "py_get b1 ''notes'' d = py_get b' ''notes'' d" for d
    by (simp add: b1 py_get_py_set)
  have first: "signals b' = signals b" "notes_of b' = notes_after (notes_of b) (triggered_notes b)"
    "triggered_notes b = [] \<longrightarrow> b' = b"
    "triggered_notes b \<noteq> [] \<longrightarrow> py_get b' ''notes'' (PStr []) = PStr (notes_of b')"
    using calculate_first[OF c] by simp_all
  have n1: "notes_of b1 = notes_of b'" by (simp add: notes_of_def get1)
  have hyp: "triggered_notes b = [] \<or> (\<exists>n. py_get b1 ''notes'' (PStr []) = PStr n)"
    using first(4) get1 by auto
  have "signals b1 = signals b" using sig1 first(1) by simp
  from calculate_second[OF c this hyp] obtain c' where
    c': "calculate_priority_score cfg b1 = Inr (s, c')"
    and c'n: "notes_of c' = notes_after (notes_of b1) (triggered_notes b)"
    and c'e: "triggered_notes b = [] \<longrightarrow> c' = b1"
    by blast
  define b2 where "b2 = py_set (py_set c' ''priority_score'' (PNum (of_int s)))
                    ''priority_category'' (PStr (get_priority_category s))"
  have run2: "score_one cfg b1 = Inr b2"
    by (simp add: score_one_def c' bind_err_simps b2_def)
  have get2: "py_get b2 ''notes'' d = py_get c' ''notes'' d" for d
    by (simp add: b2_def py_get_py_set)
  have n2: "notes_of b2 = notes_of c'" by (simp add: notes_of_def get2)
  have str2: "triggered_notes b \<noteq> [] \<longrightarrow> py_get b2 ''notes'' (PStr []) = PStr (notes_of b2)"
  proof
    assume ne: "triggered_notes b \<noteq> []"
    have "triggered_notes b1 = triggered_notes b"
      using triggered_notes_signals \<open>signals b1 = signals b\<close> by blast
    then have "triggered_notes b1 \<noteq> []" using ne by simp
    moreover have "py_get c' ''notes'' (PStr []) = PStr (notes_of c')"
      if "triggered_notes b1 \<noteq> []" using calculate_first[OF c'] that by simp
    ultimately show "py_get b2 ''notes'' (PStr []) = PStr (notes_of b2)"
      using get2 n2 by simp
  qed
  have unch: "triggered_notes b = [] \<longrightarrow> py_get b2 ''notes'' PNone = py_get b ''notes'' PNone"
    using c'e first(3) get1 get2 by auto
  show ?thesis
    using run2 first(2,4) n1 get1 c'n n2 str2 unch
    by (auto simp: b1 b2_def map_of_py_set)
qed

lemma score_loop_distinct:
  "score_loop cfg h rs = Inr h' \<Longrightarrow> distinct rs \<Longrightarrow>
   length h' = length h
   \<and> (\<forall>r\<in>set rs. r < length h \<and> score_one cfg (h ! r) = Inr (h' ! r))
   \<and> (\<forall>r. r \<notin> set rs \<longrightarrow> h' ! r = h ! r)"
proof (induction rs arbitrary: h)
  case Nil
  then show ?case by simp
next
  case (Cons a rs)
  from Cons.prems(1) obtain b where a: "a < length h" and b: "score_one cfg (h ! a) = Inr b"
    and rest: "score_loop cfg (h[a := b]) rs = Inr h'"
    by (auto simp: bind_err_Inr split: if_splits)
  have d: "distinct rs" "a \<notin> set rs" using Cons.prems(2) by auto
  from Cons.IH[OF rest d(1)] have ih: "length h' = length h"
    "\<forall>r\<in>set rs. r < length h \<and> score_one cfg (h[a := b] ! r) = Inr (h' ! r)"
    "\<forall>r. r \<notin> set rs \<longrightarrow> h' ! r = h[a := b] ! r"
    by simp_all
  have "h' ! a = b" using ih(3) d(2) a by simp
  moreover have "\<forall>r\<in>set rs. score_one cfg (h ! r) = Inr (h' ! r)"
    using ih(2) d(2) by (metis nth_list_update_neq)
  ultimately show ?case using ih a b by auto
qed

lemma score_loop_exists:
  "distinct rs \<Longrightarrow> \<forall>r\<in>set rs. r < length h \<and> (\<exists>b. score_one cfg (h ! r) = Inr b) \<Longrightarrow>
   \<exists>h'. score_loop cfg h rs = Inr h'"
proof (induction rs arbitrary: h)
  case Nil
  then show ?case by simp
next
  case (Cons a rs)
  then obtain b where a: "a < length h" and b: "score_one cfg (h ! a) = Inr b" by auto
  have "\<forall>r\<in>set rs. r < length (h[a := b]) \<and> (\<exists>b'. score_one cfg (h[a := b] ! r) = Inr b')"
    using Cons.prems by (metis distinct.simps(2) length_list_update list.set_intros(2)
        nth_list_update_neq)
  then obtain h' where "score_loop cfg (h[a := b]) rs = Inr h'"
    using Cons.IH[of "h[a := b]"] Cons.prems(1) by auto
  then show ?case using a b by (simp add: bind_err_simps)
qed

theorem score_leads_bounds_witness:
  "map_of lead0_scored ''priority_score'' = Some (PNum 175)
   \<and> map_of lead0_scored ''priority_category'' = Some (PStr PRIORITY_IMMEDIATE)
   \<and> (\<exists>s. map_of ([lead0_scored] ! 0) ''priority_score'' = Some (PNum (of_int s))
         \<and> 0 \<le> s \<and> s \<le> 200)"
  using score_leads_bounds [of default_scoring "[lead0]" "[0]" "[lead0_scored]" "[0]" 0]
  by (simp add: prioritizer_eval lead0_def lead0_scored_def ascii_def)

text \<open>
  C10. \<open>score_leads\<close> writes the score into the dictionaries it is given, and scoring its
  own output again (a list of distinct dictionaries) returns, leaves \<open>priority_score\<close>
  and \<open>priority_category\<close> as they are and, for a business that triggers at least one
  rule with a note, appends the note texts of the triggered rules to \<open>notes\<close> a second
  time, joined by \<open>"; "\<close>.
\<close>

theorem score_leads_rescoring:
  assumes "score_leads cfg h rs = Inr (h1, out1)" and "distinct rs" and "r \<in> set rs"
  shows "\<exists>h2 out2. score_leads cfg h1 out1 = Inr (h2, out2)
     \<and> map_of (h1 ! r) ''priority_score'' \<noteq> None
     \<and> map_of (h2 ! r) ''priority_score'' = map_of (h1 ! r) ''priority_score''
     \<and> map_of (h2 ! r) ''priority_category'' = map_of (h1 ! r) ''priority_category''
     \<and> (triggered_notes (h ! r) \<noteq> [] \<longrightarrow>
          py_get (h1 ! r) ''notes'' (PStr []) =
            PStr (notes_after (notes_of (h ! r)) (triggered_notes (h ! r)))
          \<and> py_get (h2 ! r) ''notes'' (PStr []) =
            PStr (notes_of (h1 ! r) @ ascii ''; ''
                  @ py_join (ascii ''; '') (triggered_notes (h ! r))))"
proof -
  from assms(1) have loop1: "score_loop cfg h rs = Inr h1"
    and out1: "out1 = rev (sort_key (priority_key h1) (rev rs))"
    by (auto simp: score_leads_def bind_err_Inr)
  have d1: "distinct out1" "set out1 = set rs" using assms(2) by (simp_all add: out1)
  from score_loop_distinct[OF loop1 assms(2)] have one:
    "length h1 = length h" "\<forall>r\<in>set rs. r < length h \<and> score_one cfg (h ! r) = Inr (h1 ! r)"
    by simp_all
  have "\<forall>r\<in>set out1. r < length h1 \<and> (\<exists>b. score_one cfg (h1 ! r) = Inr b)"
    using one d1(2) score_one_twice by (metis (no_types, lifting))
  from score_loop_exists[OF d1(1) this] obtain h2 where loop2: "score_loop cfg h1 out1 = Inr h2"
    by blast
  then have run2: "score_leads cfg h1 out1 = Inr (h2, rev (sort_key (priority_key h2) (rev out1)))"
    by (simp add: score_leads_def bind_err_simps)
  have two: "score_one cfg (h1 ! r) = Inr (h2 ! r)"
    using score_loop_distinct[OF loop2 d1(1)] d1(2) assms(3) by simp
  have first: "score_one cfg (h ! r) = Inr (h1 ! r)" using one(2) assms(3) by simp
  from score_one_twice[OF first] two have props:
    "map_of (h1 ! r) ''priority_score'' \<noteq> None"
    "map_of (h2 ! r) ''priority_score'' = map_of (h1 ! r) ''priority_score''"
    "map_of (h2 ! r) ''priority_category'' = map_of (h1 ! r) ''priority_category''"
    "notes_of (h1 ! r) = notes_after (notes_of (h ! r)) (triggered_notes (h ! r))"
    "notes_of (h2 ! r) = notes_after (notes_of (h1 ! r)) (triggered_notes (h ! r))"
    "triggered_notes (h ! r) \<noteq> [] \<longrightarrow>
          py_get (h1 ! r) ''notes'' (PStr []) = PStr (notes_of (h1 ! r))
          \<and> py_get (h2 ! r) ''notes'' (PStr []) = PStr (notes_of (h2 ! r))"
    by auto
  have "notes_of (h2 ! r) = notes_of (h1 ! r) @ ascii ''; ''
                  @ py_join (ascii ''; '') (triggered_notes (h ! r))"
    if ne: "triggered_notes (h ! r) \<noteq> []"
  proof -
    have "notes_of (h1 ! r) \<noteq> []" using props(4) notes_after_triggered[OF ne] by simp
    then show ?thesis using props(5) ne by (simp add: notes_after_py_join)
  qed
  then show ?thesis using run2 props by auto
qed

theorem score_leads_rescoring_witness:
  "\<exists>h2 out2. score_leads default_scoring [lead0_scored] [0] = Inr (h2, out2)
     \<and> map_of (h2 ! 0) ''priority_score'' = Some (PNum 175)
     \<and> py_get (h2 ! 0) ''notes'' (PStr []) =
         PStr (ascii ''No website - High opportunity; No email found; No social media; No website - High opportunity; No email found; No social media'')"
  using score_leads_rescoring [of default_scoring "[lead0]" "[0]" "[lead0_scored]" "[0]" 0]
  by (simp add: prioritizer_eval lead0_def lead0_scored_def ascii_def triggered_notes_def
      notes_of_def)

section \<open>Properties of the floating point numbers\<close>

text \<open>
  \<open>to_double q\<close> has a significand of 53 bits at the exponent of \<open>q\<close> and is at most
  half a unit in the last place away from \<open>q\<close>; some known doubles follow.
\<close>

lemma bit_length_eval:
  "bit_length 0 = 0" "bit_length (Suc 0) = Suc 0"
  "bit_length (numeral k) = Suc (bit_length (numeral k div 2))"
  by (subst bit_length.simps, simp)+

lemma floor_rat_numeral: "\<lfloor>(numeral a :: rat) / numeral b\<rfloor> = numeral a div numeral b"
  using floor_divide_of_int_eq[of "numeral a" "numeral b", where ?'a = rat] by simp

lemmas float_eval = calculate_ratio_def to_double_def exponent_def round_half_even_def
  bit_length_eval floor_rat_numeral Let_def

lemma bit_length_bounds: "n \<noteq> 0 \<Longrightarrow> 2 ^ (bit_length n - 1) \<le> n \<and> n < 2 ^ bit_length n"
proof (induction n rule: bit_length.induct)
  case (1 n)
  have b: "bit_length n = Suc (bit_length (n div 2))" using 1(2) by (subst bit_length.simps) simp
  show ?case
  proof (cases "n div 2 = 0")
    case True
    then have "n = 1" using 1(2) by presburger
    then show ?thesis by (simp add: bit_length_eval)
  next
    case False
    from 1(1)[OF 1(2) False] have ih: "2 ^ (bit_length (n div 2) - 1) \<le> n div 2"
      "n div 2 < 2 ^ bit_length (n div 2)" by simp_all
    have pos: "bit_length (n div 2) \<noteq> 0" using False by (subst bit_length.simps) simp
    then obtain m where m: "bit_length (n div 2) = Suc m" by (cases "bit_length (n div 2)") auto
    have "2 * 2 ^ m \<le> n" using ih(1) unfolding m by simp
    moreover have "n < 2 * (2 * 2 ^ m)" using ih(2) unfolding m by simp
    ultimately show ?thesis unfolding b m by simp
  qed
qed

lemma floor_bit_length:
  fixes x :: rat
  assumes "1 \<le> x"
  obtains m where "bit_length (nat \<lfloor>x\<rfloor>) = Suc m" "2 ^ m \<le> x" "x < 2 ^ Suc m"
proof -
  define n where "n = nat \<lfloor>x\<rfloor>"
  have "1 \<le> \<lfloor>x\<rfloor>" using assms by linarith
  then have n0: "n \<noteq> 0" and nx: "int n = \<lfloor>x\<rfloor>" by (simp_all add: n_def)
  have lo: "of_nat n \<le> x" and hi: "x < of_nat n + 1"
    using nx by (metis of_int_floor_le of_int_of_nat_eq, metis floor_correct of_int_of_nat_eq of_int_add of_int_1)
  obtain m where m: "bit_length n = Suc m" using bit_length_bounds[OF n0] n0
    by (cases "bit_length n") auto
  from bit_length_bounds[OF n0] have "2 ^ m \<le> n" "n + 1 \<le> 2 ^ Suc m" unfolding m by simp_all
  then have "rat_of_nat (2 ^ m) \<le> of_nat n" "rat_of_nat (n + 1) \<le> of_nat (2 ^ Suc m)"
    unfolding of_nat_le_iff by simp_all
  then have "(2::rat) ^ m \<le> of_nat n" "(of_nat n :: rat) + 1 \<le> 2 ^ Suc m" by simp_all
  then have "2 ^ m \<le> x" "x < 2 ^ Suc m" using lo hi by linarith+
  then show ?thesis using that m unfolding n_def by blast
qed

lemma exponent_bounds:
  assumes "0 < q"
  shows "2 powi exponent q \<le> q \<and> q < 2 powi (exponent q + 1)"
proof (cases "1 \<le> q")
  case True
  from floor_bit_length[OF True] obtain m where
    m: "bit_length (nat \<lfloor>q\<rfloor>) = Suc m" "2 ^ m \<le> q" "q < 2 ^ Suc m" by blast
  have "exponent q = int m" using True by (simp add: exponent_def m(1))
  moreover have "(2::rat) powi (int m + 1) = 2 ^ Suc m"
    using power_int_of_nat[of "2::rat" "Suc m"] by (simp add: add.commute)
  ultimately show ?thesis using m(2,3) by simp
next
  case False
  define x where "x = 1 / q"
  have x: "1 \<le> x" "q = 1 / x" "0 < x" using False assms by (simp_all add: x_def)
  from floor_bit_length[OF x(1)] obtain m where
    m: "bit_length (nat \<lfloor>x\<rfloor>) = Suc m" "2 ^ m \<le> x" "x < 2 ^ Suc m" by blast
  have qb: "q \<le> 1 / 2 ^ m" "1 / 2 ^ Suc m < q"
    using m(2,3) x(3) unfolding x(2) by (simp_all add: field_simps)
  have k: "int (bit_length (nat \<lfloor>1 / q\<rfloor>)) = int m + 1"
    by (simp add: x_def[symmetric] m(1))
  have p1: "(2::rat) powi (- int m) = 1 / 2 ^ m"
    by (simp add: power_int_minus_divide)
  have "- int m - 1 = - int (Suc m)" by simp
  then have p2: "(2::rat) powi (- int m - 1) = 1 / 2 ^ Suc m"
    by (simp only: power_int_minus_divide power_int_of_nat)
  show ?thesis
  proof (cases "q = 2 powi (- int m)")
    case True
    then have "exponent q = - int m" using False k by (simp add: exponent_def Let_def)
    moreover have "(2::rat) powi (- int m + 1) = 2 * 2 powi (- int m)"
      by (rule power_int_add_1') simp
    ultimately show ?thesis using True assms by simp
  next
    case neq: False
    then have "exponent q = - int m - 1" using False k by (simp add: exponent_def Let_def)
    then show ?thesis using neq qb p1 p2 by simp
  qed
qed

lemma round_half_even_nearest: "\<bar>of_int (round_half_even x) - x\<bar> \<le> 1 / 2"
proof -
  have "of_int \<lfloor>x\<rfloor> \<le> x" "x < of_int \<lfloor>x\<rfloor> + 1" by linarith+
  then show ?thesis by (auto simp: round_half_even_def Let_def)
qed

lemma round_half_even_range:
  "of_int a \<le> x \<Longrightarrow> x < of_int b \<Longrightarrow> a \<le> round_half_even x \<and> round_half_even x \<le> b"
proof -
  assume "of_int a \<le> x" "x < of_int b"
  then have "a \<le> \<lfloor>x\<rfloor>" "\<lfloor>x\<rfloor> < b" by (simp_all add: le_floor_iff floor_less_iff)
  then show ?thesis by (auto simp: round_half_even_def Let_def)
qed

lemma to_double_significand:
  assumes "q \<noteq> 0"
  shows "\<exists>m. to_double q = sgn q * of_int m * 2 powi (exponent \<bar>q\<bar> - 52)
             \<and> 2 ^ 52 \<le> m \<and> m \<le> 2 ^ 53"
proof -
  define e where "e = exponent \<bar>q\<bar>"
  define u :: rat where "u = 2 powi (e - 52)"
  define y where "y = \<bar>q\<bar> / u"
  have u: "0 < u" by (simp add: u_def zero_less_power_int)
  have b: "2 powi e \<le> \<bar>q\<bar>" "\<bar>q\<bar> < 2 powi (e + 1)"
    using exponent_bounds[of "\<bar>q\<bar>"] assms by (simp_all add: e_def)
  have "(2::rat) powi e = 2 ^ 52 * u" "(2::rat) powi (e + 1) = 2 ^ 53 * u"
    unfolding u_def using power_int_add[of "2::rat" 52 "e - 52"] power_int_add[of "2::rat" 53 "e - 52"]
    by (simp_all add: add.commute)
  then have "2 ^ 52 \<le> y" "y < 2 ^ 53" using b u by (simp_all add: y_def field_simps)
  then have "of_int (2 ^ 52) \<le> y" "y < of_int (2 ^ 53)" by simp_all
  then have "2 ^ 52 \<le> round_half_even y \<and> round_half_even y \<le> 2 ^ 53"
    by (rule round_half_even_range)
  moreover have "to_double q = sgn q * of_int (round_half_even y) * u"
    using assms by (simp add: to_double_def Let_def e_def u_def y_def)
  ultimately show ?thesis unfolding u_def e_def by blast
qed

lemma to_double_nearest:
  assumes "q \<noteq> 0"
  shows "\<bar>to_double q - q\<bar> \<le> 2 powi (exponent \<bar>q\<bar> - 53)"
proof -
  define u :: rat where "u = 2 powi (exponent \<bar>q\<bar> - 52)"
  define y where "y = \<bar>q\<bar> / u"
  have u: "0 < u" by (simp add: u_def zero_less_power_int)
  have half: "(2::rat) powi (exponent \<bar>q\<bar> - 53) = u / 2"
    unfolding u_def using power_int_add_1'[of "2::rat" "exponent \<bar>q\<bar> - 53"] by simp
  have q: "q = sgn q * y * u" using u by (simp add: y_def sgn_mult_abs)
  have "to_double q = sgn q * of_int (round_half_even y) * u"
    using assms by (simp add: to_double_def Let_def u_def y_def)
  then have "to_double q - q = sgn q * (of_int (round_half_even y) - y) * u"
    using q by (simp add: algebra_simps)
  then have "\<bar>to_double q - q\<bar> = \<bar>of_int (round_half_even y) - y\<bar> * u"
    using assms u by (simp add: abs_mult abs_sgn_eq)
  also have "\<dots> \<le> 1 / 2 * u"
    using round_half_even_nearest[of y] u by (intro mult_right_mono) simp_all
  finally show ?thesis unfolding half by simp
qed

lemma to_double_examples:
  "to_double (1 / 10) = 3602879701896397 / 36028797018963968"
  "to_double (1 / 3) = 6004799503160661 / 18014398509481984"
  "to_double (3 / 4) = 3 / 4"
  "to_double 9007199254740993 = 9007199254740992"
  "to_double 9007199254740995 = 9007199254740996"
  by (simp_all add: float_eval)

lemma default_similarity_threshold_value:
  "default_similarity_threshold = 8106479329266893 / 9007199254740992"
  by (simp add: default_similarity_threshold_def float_eval)

section \<open>Properties of the Deduplicator\<close>

lemma flm_outer_step:
  "i < ahi \<Longrightarrow> flm_outer a b blo bhi i ahi st =
     flm_outer a b blo bhi (Suc i) ahi
       (flm_inner i blo bhi (snd st) (b2j b (a ! i)) (fst st, Map.empty))"
  "\<not> i < ahi \<Longrightarrow> flm_outer a b blo bhi i ahi st = fst st"
  by (subst flm_outer.simps, simp)+

lemma extend_left_pair:
  "extend_left a b alo blo (besti, bestj, bestsize) =
     (if besti > alo \<and> bestj > blo \<and> a ! (besti - 1) = b ! (bestj - 1)
      then extend_left a b alo blo (besti - 1, bestj - 1, bestsize + 1)
      else (besti, bestj, bestsize))"
  by (subst extend_left.simps) simp

lemma extend_right_pair:
  "extend_right a b ahi bhi (besti, bestj, bestsize) =
     (if besti + bestsize < ahi \<and> bestj + bestsize < bhi
         \<and> a ! (besti + bestsize) = b ! (bestj + bestsize)
      then extend_right a b ahi bhi (besti, bestj, bestsize + 1)
      else (besti, bestj, bestsize))"
  by (subst extend_right.simps) simp

lemmas difflib_eval = ratio_def find_longest_match_def flm_outer_step extend_left_pair
  extend_right_pair b2j_def Let_def

lemma pratelstvi_name_similarity:
  "calculate_similarity
     [107, 97, 118, 225, 114, 110, 97, 32, 112, 345, 225, 116, 101, 108, 115, 116, 118, 237]
     [107, 97, 118, 97, 114, 110, 97, 32, 112, 114, 97, 116, 101, 108, 115, 116, 118, 105]
   = 7005599420354105 / 9007199254740992"
  by (simp add: calculate_similarity_def difflib_eval float_eval)




lemmas strings_eval = ascii_def py_lower_def lower_char_def py_strip_def is_space_def

lemmas dedup_eval = deduplicate_def find_fuzzy_duplicate_def lower_strip_def seen_before_def
  py_in_def mark_seen_def py_get_def bind_err_def merge_duplicates_def completeness_def Let_def
  merge_rating_def merge_quality_def merge_activities_def py_set_of_def py_gt_def

text \<open>
  C7, as the code has it. The claim as stated fails: \<open>_find_fuzzy_duplicate\<close> compares
  the names after \<open>lower().strip()\<close> only, so the accented letters still differ. The
  similarity of the two names is the double nearest to \<open>2 * 14 / 36 = 7 / 9\<close>, below the
  threshold \<open>0.9\<close>, and both records are kept.
\<close>

theorem pratelstvi_not_merged_counterexample:
  "deduplicate default_similarity_threshold [pratelstvi_a, pratelstvi_b]
     = Inr [pratelstvi_a, pratelstvi_b]"
  by (simp add: dedup_eval pratelstvi_a_def pratelstvi_b_def strings_eval
      pratelstvi_name_similarity default_similarity_threshold_value)

text \<open>
  C7 (amended). For the two records of the scenario, the deduplicator at the similarity
  threshold \<open>0.9\<close> does not identify them as duplicates: the similarity of the
  lower-cased names is below the threshold, \<open>_find_fuzzy_duplicate\<close> returns \<open>None\<close>, and
  \<open>deduplicate\<close> returns both records unchanged (the output has length 2).
\<close>

theorem pratelstvi_kept_at_default_threshold:
  "calculate_similarity
     [107, 97, 118, 225, 114, 110, 97, 32, 112, 345, 225, 116, 101, 108, 115, 116, 118, 237]
     [107, 97, 118, 97, 114, 110, 97, 32, 112, 114, 97, 116, 101, 108, 115, 116, 118, 105]
     < default_similarity_threshold
   \<and> lower_strip (py_get pratelstvi_a ''business_name'' (PStr []))
       = Inr [107, 97, 118, 225, 114, 110, 97, 32, 112, 345, 225, 116, 101, 108, 115, 116, 118, 237]
   \<and> lower_strip (py_get pratelstvi_b ''business_name'' (PStr []))
       = Inr [107, 97, 118, 97, 114, 110, 97, 32, 112, 114, 97, 116, 101, 108, 115, 116, 118, 105]
   \<and> find_fuzzy_duplicate default_similarity_threshold pratelstvi_a [pratelstvi_b] 1 = Inr None
   \<and> (case deduplicate default_similarity_threshold [pratelstvi_a, pratelstvi_b] of
         Inl e \<Rightarrow> False
       | Inr out \<Rightarrow> out = [pratelstvi_a, pratelstvi_b] \<and> length out = 2)"
  by (simp add: dedup_eval pratelstvi_a_def pratelstvi_b_def strings_eval
      pratelstvi_name_similarity default_similarity_threshold_value)






































end
